theory Spec2Isabelle
  imports Main
begin

section \<open>Time stamps\<close>

text \<open>
  A Go \<open>time.Time\<close> without a monotonic clock reading holds a number of seconds since
  January 1 of year 1, 00:00:00 UTC, a signed 64-bit integer, and a number of
  nanoseconds from 0 to 999999999. It is modelled as the integer \<open>seconds * 10^9 +
  nanoseconds\<close>; the zero Time is 0. The methods \<open>After\<close>, \<open>Before\<close> and \<open>IsZero\<close>
  compare those two numbers.
\<close>

type_synonym time = int

definition zeroTime :: time where
  "zeroTime = 0"

definition After :: "time \<Rightarrow> time \<Rightarrow> bool" where
  "After t u = (t > u)"

definition Before :: "time \<Rightarrow> time \<Rightarrow> bool" where
  "Before t u = (t < u)"

definition IsZero :: "time \<Rightarrow> bool" where
  "IsZero t = (t = zeroTime)"

definition nsPerDay :: int where
  "nsPerDay = 86400 * 1000000000"

text \<open>The value of a 64-bit signed integer after an arithmetic operation that wraps.\<close>

definition wrap64 :: "int \<Rightarrow> int" where
  "wrap64 x = (x + 2 ^ 63) mod 2 ^ 64 - 2 ^ 63"

definition secondsPerDay :: int where
  "secondsPerDay = 86400"

text \<open>The seconds from January 1 of year 1 to January 1 of 1970.\<close>

definition unixToInternal :: int where
  "unixToInternal = 62135596800"

text \<open>
  A \<open>time.Location\<close> is what its \<open>lookup\<close> answers for a Unix time in seconds: the
  offset of the zone in use, in seconds east of UTC, and the Unix times at which that
  zone begins and ends.
\<close>

type_synonym location = "int \<Rightarrow> int \<times> int \<times> int"

definition zoneOffset :: "int \<times> int \<times> int \<Rightarrow> int" where
  "zoneOffset z = fst z"

definition zoneStart :: "int \<times> int \<times> int \<Rightarrow> int" where
  "zoneStart z = fst (snd z)"

definition zoneEnd :: "int \<times> int \<times> int \<Rightarrow> int" where
  "zoneEnd z = snd (snd z)"

definition utcLoc :: location where
  "utcLoc = (\<lambda>sec. (0, - (2 ^ 63), 2 ^ 63 - 1))"

text \<open>
  \<open>t.AddDate(0, 0, days)\<close> for a time \<open>t\<close> in the location \<open>loc\<close>, as package
  \<open>time\<close> computes it. \<open>AddDate\<close> takes the date and the clock of \<open>t\<close> in its
  location and calls \<open>Date\<close> with the day of the month moved by \<open>days\<close>. \<open>Date\<close>
  counts the days of that date, which is linear in the day of the month, multiplies
  by 86400 and adds the clock, in 64-bit arithmetic that wraps: that is the local
  clock reading of \<open>t\<close> in seconds plus \<open>days * 86400\<close>, wrapped (\<open>unix0\<close>). It then
  looks up the zone at \<open>unix0\<close>, as if that were a Unix time, and subtracts its
  offset; if the result lies outside that zone's period, it takes the offset of the
  zone found there instead. The nanoseconds are kept.
\<close>

definition AddDate_days :: "location \<Rightarrow> time \<Rightarrow> int \<Rightarrow> time" where
  "AddDate_days loc t days =
     (let nsec = t mod 1000000000;
          unixSec = wrap64 (t div 1000000000 - unixToInternal);
          localSec = wrap64 (unixSec + zoneOffset (loc unixSec));
          unix0 = wrap64 (localSec + wrap64 days * secondsPerDay);
          z = loc unix0;
          unix =
            (if zoneOffset z \<noteq> 0 then
               (let utc = wrap64 (unix0 - zoneOffset z) in
                if utc < zoneStart z \<or> utc \<ge> zoneEnd z
                then wrap64 (unix0 - zoneOffset (loc utc))
                else wrap64 (unix0 - zoneOffset z))
             else unix0)
      in wrap64 (unix + unixToInternal) * 1000000000 + nsec)"

section \<open>Paths\<close>

text \<open>
  \<open>filepath.Join\<close> and \<open>filepath.Clean\<close> as on Unix, where the separator is the
  slash. \<open>Clean\<close> works on the text of the path alone: it drops empty elements and
  \<open>.\<close>, and drops each \<open>..\<close> together with the element before it, whatever that
  element names in the file system.
\<close>

fun splitSlash :: "string \<Rightarrow> string list" where
  "splitSlash [] = [[]]"
| "splitSlash (c # s) =
     (if c = CHR ''/'' then [] # splitSlash s
      else (case splitSlash s of [] \<Rightarrow> [[c]] | p # ps \<Rightarrow> (c # p) # ps))"

fun joinSlash :: "string list \<Rightarrow> string" where
  "joinSlash [] = []"
| "joinSlash [e] = e"
| "joinSlash (e # es) = e @ CHR ''/'' # joinSlash es"

text \<open>
  The loop of \<open>Clean\<close> over the elements of the path; \<open>out\<close> holds the elements
  written so far, the last one first.
\<close>

fun cleanElems :: "bool \<Rightarrow> string list \<Rightarrow> string list \<Rightarrow> string list" where
  "cleanElems rooted [] out = rev out"
| "cleanElems rooted (e # es) out =
     (if e = [] \<or> e = ''.'' then cleanElems rooted es out
      else if e = ''..'' then
        (case out of
           [] \<Rightarrow> if rooted then cleanElems rooted es [] else cleanElems rooted es [''..'']
         | prev # below \<Rightarrow>
             if prev = ''..'' then cleanElems rooted es (''..'' # out)
             else cleanElems rooted es below)
      else cleanElems rooted es (e # out))"

definition Clean :: "string \<Rightarrow> string" where
  "Clean path =
     (if path = [] then ''.''
      else
        (let rooted = (hd path = CHR ''/'');
             body = joinSlash (cleanElems rooted (splitSlash path) [])
         in if rooted then CHR ''/'' # body
            else if body = [] then ''.''
            else body))"

definition filepath_Join :: "string \<Rightarrow> string \<Rightarrow> string" where
  "filepath_Join dir name =
     (if dir \<noteq> [] then Clean (dir @ CHR ''/'' # name)
      else if name \<noteq> [] then Clean name
      else [])"

text \<open>
  The directory part and the last element of a path, as the system walks it: the
  file is the entry called by the last element in the directory that the part before
  the last slash names (the root for a path like \<open>/x\<close>, the working directory for a
  path without a slash).
\<close>

definition splitPath :: "string \<Rightarrow> string \<times> string" where
  "splitPath path =
     (let elems = splitSlash path in
      if length elems \<le> 1 then (''.'', path)
      else (let dir = joinSlash (butlast elems) in
            (if dir = [] then ''/'' else dir, last elems)))"

section \<open>The file system\<close>

text \<open>
  A directory entry: its name, whether \<open>entry.Type().IsRegular()\<close> holds, what
  \<open>times.Stat\<close> answers for it (\<open>None\<close> is an error, otherwise the modification time
  and, if the file system records one, the birth time) and whether \<open>os.Remove\<close>
  succeeds on it.
\<close>

record dirent =
  fname :: string
  regular :: bool
  stat :: "(time \<times> time option) option"
  removable :: bool

text \<open>
  What a path names once the system has resolved it, symbolic links included: nothing
  (\<open>os.Stat\<close> fails), something that is not a directory, or a directory, which can
  or cannot be listed by \<open>os.ReadDir\<close>. Directories are numbered, so that two paths can
  name the same directory; \<open>content\<close> gives the entries of each directory in the order
  \<open>os.ReadDir\<close> returns them. Nothing but the program changes the file system while
  it runs.
\<close>

datatype node = NoEntry | NotDir | Dir bool nat

record filesystem =
  dirAt :: "string \<Rightarrow> node"
  content :: "nat \<Rightarrow> dirent list"

definition os_ReadDir :: "filesystem \<Rightarrow> string \<Rightarrow> dirent list option" where
  "os_ReadDir fs folder =
     (case dirAt fs folder of Dir True d \<Rightarrow> Some (content fs d) | _ \<Rightarrow> None)"

definition os_Stat_IsDir :: "filesystem \<Rightarrow> string \<Rightarrow> bool" where
  "os_Stat_IsDir fs folder = (case dirAt fs folder of Dir l d \<Rightarrow> True | _ \<Rightarrow> False)"

text \<open>The file a path names: the number of its directory and its entry there.\<close>

definition fileAt :: "filesystem \<Rightarrow> string \<Rightarrow> (nat \<times> dirent) option" where
  "fileAt fs path =
     (case splitPath path of
        (dir, base) \<Rightarrow>
          (case dirAt fs dir of
             Dir l d \<Rightarrow>
               (case find (\<lambda>f. fname f = base) (content fs d) of
                  None \<Rightarrow> None
                | Some f \<Rightarrow> Some (d, f))
           | _ \<Rightarrow> None))"

definition times_Stat :: "filesystem \<Rightarrow> string \<Rightarrow> (time \<times> time option) option" where
  "times_Stat fs path = (case fileAt fs path of None \<Rightarrow> None | Some (d, f) \<Rightarrow> stat f)"

text \<open>
  \<open>os.Remove\<close>: \<open>None\<close> is an error and leaves the file system as it was, otherwise
  the file system without that entry.
\<close>

definition os_Remove :: "filesystem \<Rightarrow> string \<Rightarrow> filesystem option" where
  "os_Remove fs path =
     (case fileAt fs path of
        None \<Rightarrow> None
      | Some (d, f) \<Rightarrow>
          if removable f
          then Some (fs\<lparr>content := (content fs)
                         (d := filter (\<lambda>g. fname g \<noteq> fname f) (content fs d))\<rparr>)
          else None)"

section \<open>The log\<close>

text \<open>One constructor for each \<open>log.Printf\<close> call of \<open>main.go\<close>, with its arguments.\<close>

datatype logline =
    LogStatError string
  | LogNoFiles string
  | LogCutoff string time time
  | LogRemoveError string
  | LogRemoved string
  | LogFolderSkipped string
  | LogFolderError string
  | LogWriteError
  | LogWritten

section \<open>processFolder\<close>

datatype error = ReadDirError | EnvDaysError | ReadFileError | UnmarshalError

text \<open>
  The first loop: count and collect the regular files, find the newest time stamp.
  \<open>t.BirthTime()\<close> panics when the file has no birth time; the loop then ends with
  \<open>Inl\<close> and the lines logged so far.
\<close>

fun scanEntries ::
  "filesystem \<Rightarrow> string \<Rightarrow> dirent list \<Rightarrow> int \<times> dirent list \<times> time \<times> logline list
     \<Rightarrow> logline list + int \<times> dirent list \<times> time \<times> logline list" where
  "scanEntries fs folder [] acc = Inr acc"
| "scanEntries fs folder (entry # entries) (totalFiles, fileEntries, newestTime, lg) =
     (if regular entry then
        (let fullPath = filepath_Join folder (fname entry) in
         case times_Stat fs fullPath of
           None \<Rightarrow>
             scanEntries fs folder entries
               (totalFiles + 1, fileEntries @ [entry], newestTime,
                lg @ [LogStatError fullPath])
         | Some (modTime, None) \<Rightarrow> Inl lg
         | Some (modTime, Some birth) \<Rightarrow>
             (let fileNewest = (if After birth modTime then birth else modTime) in
              scanEntries fs folder entries
                (totalFiles + 1, fileEntries @ [entry],
                 (if After fileNewest newestTime then fileNewest else newestTime), lg)))
      else scanEntries fs folder entries (totalFiles, fileEntries, newestTime, lg))"

text \<open>
  The second loop: remove the files that are older than the cutoff. A panic of
  \<open>t.BirthTime()\<close> ends it with \<open>Inl\<close>, the file system as it is then and the lines
  logged so far.
\<close>

fun deleteOld ::
  "string \<Rightarrow> time \<Rightarrow> dirent list \<Rightarrow> filesystem \<times> int \<times> logline list
     \<Rightarrow> filesystem \<times> logline list + filesystem \<times> int \<times> logline list" where
  "deleteOld folder cutoff [] st = Inr st"
| "deleteOld folder cutoff (entry # entries) (fs, deletedFiles, lg) =
     (let fullPath = filepath_Join folder (fname entry) in
      case times_Stat fs fullPath of
        None \<Rightarrow>
          deleteOld folder cutoff entries (fs, deletedFiles, lg @ [LogStatError fullPath])
      | Some (modTime, None) \<Rightarrow> Inl (fs, lg)
      | Some (modTime, Some birthTime) \<Rightarrow>
          if Before modTime cutoff \<and> Before birthTime cutoff then
            (case os_Remove fs fullPath of
               None \<Rightarrow>
                 deleteOld folder cutoff entries
                   (fs, deletedFiles, lg @ [LogRemoveError fullPath])
             | Some fs' \<Rightarrow>
                 deleteOld folder cutoff entries
                   (fs', deletedFiles + 1, lg @ [LogRemoved fullPath]))
          else deleteOld folder cutoff entries (fs, deletedFiles, lg))"

text \<open>
  \<open>processFolder\<close> in the location \<open>loc\<close> of the time stamps (\<open>time.Local\<close>). It
  returns (\<open>Inr\<close>) the triple of the source (files found, files deleted, error), the
  file system it leaves and the lines it logged; or it panics (\<open>Inl\<close>), leaving a
  file system and the lines logged so far. The negation of \<open>days\<close> wraps as every
  64-bit operation does; \<open>AddDate_days\<close> takes its argument modulo \<open>2^64\<close>.
\<close>

definition processFolder ::
  "location \<Rightarrow> filesystem \<Rightarrow> string \<Rightarrow> int
     \<Rightarrow> filesystem \<times> logline list + (int \<times> int \<times> error option) \<times> filesystem \<times> logline list" where
  "processFolder loc fs folder days =
     (case os_ReadDir fs folder of
        None \<Rightarrow> Inr ((0, 0, Some ReadDirError), fs, [])
      | Some entries \<Rightarrow>
          (case scanEntries fs folder entries (0, [], zeroTime, []) of
             Inl lg \<Rightarrow> Inl (fs, lg)
           | Inr (totalFiles, fileEntries, newestTime, lg) \<Rightarrow>
               if IsZero newestTime then
                 Inr ((totalFiles, 0, None), fs, lg @ [LogNoFiles folder])
               else
                 (let cutoff = AddDate_days loc newestTime (- days) in
                  case deleteOld folder cutoff fileEntries
                         (fs, 0, lg @ [LogCutoff folder newestTime cutoff]) of
                    Inl p \<Rightarrow> Inl p
                  | Inr (fs', deletedFiles, lg') \<Rightarrow>
                      Inr ((totalFiles, deletedFiles, None), fs', lg'))))"

section \<open>Strings\<close>

text \<open>
  A Go string is a sequence of bytes, here a \<open>string\<close>. Go's \<open>int\<close> is taken to be
  64 bits wide, as on every 64-bit platform.
\<close>

definition isDigit :: "char \<Rightarrow> bool" where
  "isDigit ch = (48 \<le> (of_char ch :: nat) \<and> (of_char ch :: nat) \<le> 57)"

fun digitsValue :: "string \<Rightarrow> int \<Rightarrow> int option" where
  "digitsValue [] n = Some n"
| "digitsValue (ch # s) n =
     (if isDigit ch then digitsValue s (n * 10 + (of_char ch - 48)) else None)"

text \<open>
  \<open>strconv.Atoi\<close>: an optional sign, then one or more decimal digits; \<open>None\<close> is a
  syntax error or a value outside the 64-bit range.
\<close>

definition Atoi :: "string \<Rightarrow> int option" where
  "Atoi s0 =
     (case s0 of
        [] \<Rightarrow> None
      | c0 # s1 \<Rightarrow>
          (let s = (if c0 = CHR ''-'' \<or> c0 = CHR ''+'' then s1 else s0) in
           if s = [] then None
           else (case digitsValue s 0 of
                   None \<Rightarrow> None
                 | Some n \<Rightarrow>
                     if c0 = CHR ''-'' then (if n > 2 ^ 63 then None else Some (- n))
                     else (if n \<ge> 2 ^ 63 then None else Some n))))"

definition isNumber :: "string \<Rightarrow> bool" where
  "isNumber s = (Atoi s \<noteq> None)"

text \<open>\<open>strings.Split(s, ",")\<close>.\<close>

fun Split_comma :: "string \<Rightarrow> string list" where
  "Split_comma [] = [[]]"
| "Split_comma (c # s) =
     (if c = CHR '','' then [] # Split_comma s
      else (case Split_comma s of [] \<Rightarrow> [[c]] | p # ps \<Rightarrow> (c # p) # ps))"

text \<open>
  The UTF-8 encodings of the code points for which \<open>unicode.IsSpace\<close> holds: U+0009 to
  U+000D, U+0020, U+0085, U+00A0, U+1680, U+2000 to U+200A, U+2028, U+2029, U+202F,
  U+205F and U+3000.
\<close>

definition spaceRunes :: "string list" where
  "spaceRunes =
     [[CHR 0x09], [CHR 0x0A], [CHR 0x0B], [CHR 0x0C], [CHR 0x0D], [CHR 0x20],
      [CHR 0xC2, CHR 0x85], [CHR 0xC2, CHR 0xA0], [CHR 0xE1, CHR 0x9A, CHR 0x80],
      [CHR 0xE2, CHR 0x80, CHR 0x80], [CHR 0xE2, CHR 0x80, CHR 0x81],
      [CHR 0xE2, CHR 0x80, CHR 0x82], [CHR 0xE2, CHR 0x80, CHR 0x83],
      [CHR 0xE2, CHR 0x80, CHR 0x84], [CHR 0xE2, CHR 0x80, CHR 0x85],
      [CHR 0xE2, CHR 0x80, CHR 0x86], [CHR 0xE2, CHR 0x80, CHR 0x87],
      [CHR 0xE2, CHR 0x80, CHR 0x88], [CHR 0xE2, CHR 0x80, CHR 0x89],
      [CHR 0xE2, CHR 0x80, CHR 0x8A], [CHR 0xE2, CHR 0x80, CHR 0xA8],
      [CHR 0xE2, CHR 0x80, CHR 0xA9], [CHR 0xE2, CHR 0x80, CHR 0xAF],
      [CHR 0xE2, CHR 0x81, CHR 0x9F], [CHR 0xE3, CHR 0x80, CHR 0x80]]"

text \<open>The width in bytes of the white-space rune a string starts with, 0 if there is none.\<close>

definition leadingSpace :: "string \<Rightarrow> nat" where
  "leadingSpace s =
     (case find (\<lambda>r. take (length r) s = r) spaceRunes of None \<Rightarrow> 0 | Some r \<Rightarrow> length r)"

fun trimFront :: "nat \<Rightarrow> string \<Rightarrow> string" where
  "trimFront 0 s = s"
| "trimFront (Suc k) s =
     (if leadingSpace s = 0 then s else trimFront k (drop (leadingSpace s) s))"

text \<open>
  \<open>strings.TrimSpace\<close>: the white-space runes are taken off the front, one rune for each
  turn of the loop (at most as many turns as there are bytes), then off the back in the
  same way.
\<close>

definition TrimLeftSpace :: "string \<Rightarrow> string" where
  "TrimLeftSpace s = trimFront (length s) s"

definition trailingSpace :: "string \<Rightarrow> nat" where
  "trailingSpace s =
     (case find (\<lambda>r. length r \<le> length s \<and> drop (length s - length r) s = r) spaceRunes of
        None \<Rightarrow> 0 | Some r \<Rightarrow> length r)"

fun trimBack :: "nat \<Rightarrow> string \<Rightarrow> string" where
  "trimBack 0 s = s"
| "trimBack (Suc k) s =
     (if trailingSpace s = 0 then s else trimBack k (take (length s - trailingSpace s) s))"

definition TrimSpace :: "string \<Rightarrow> string" where
  "TrimSpace s = (let t = TrimLeftSpace s in trimBack (length t) t)"

section \<open>Configuration\<close>

record Config =
  Days :: int
  Folders :: "string list"

definition emptyConfig :: Config where
  "emptyConfig = \<lparr>Days = 0, Folders = []\<rparr>"

text \<open>
  What the program reads from outside: the environment variables (\<open>os.Getenv\<close>
  answers the empty string for a variable that is not set), the contents of files
  (\<open>os.ReadFile\<close>, \<open>None\<close> is an error), the YAML decoder of \<open>gopkg.in/yaml.v2\<close>
  applied to a zero \<open>Config\<close> (\<open>None\<close> is an error), whether the line for
  \<open>cleanup.log\<close> can be written, and the time zone \<open>time.Local\<close>.
\<close>

record platform =
  Getenv :: "string \<Rightarrow> string"
  os_ReadFile :: "string \<Rightarrow> string option"
  yaml_Unmarshal :: "string \<Rightarrow> Config option"
  logWritable :: bool
  Local :: location

definition readYAMLConfig :: "platform \<Rightarrow> string \<Rightarrow> error + Config" where
  "readYAMLConfig x path =
     (case os_ReadFile x path of
        None \<Rightarrow> Inl ReadFileError
      | Some data \<Rightarrow>
          (case yaml_Unmarshal x data of
             None \<Rightarrow> Inl UnmarshalError
           | Some cfg \<Rightarrow> Inr cfg))"

text \<open>\<open>parseEnvConfig\<close> returns a configuration and an error, as the source does.\<close>

definition parseEnvConfig :: "platform \<Rightarrow> Config \<times> error option" where
  "parseEnvConfig x =
     (let cfg = emptyConfig; daysStr = Getenv x ''DAYS'' in
      case (if daysStr \<noteq> [] then
              (case Atoi daysStr of
                 None \<Rightarrow> Inl EnvDaysError
               | Some days \<Rightarrow> Inr (cfg\<lparr>Days := days\<rparr>))
            else Inr cfg) of
        Inl e \<Rightarrow> (cfg, Some e)
      | Inr cfg \<Rightarrow>
          (let foldersStr = Getenv x ''FOLDERS'' in
           if foldersStr \<noteq> [] then
             (cfg\<lparr>Folders := map TrimSpace (Split_comma foldersStr)\<rparr>, None)
           else (cfg, None)))"

definition mergeConfigs :: "Config \<Rightarrow> Config \<Rightarrow> Config" where
  "mergeConfigs argCfg envCfg =
     (let argCfg = (if Days argCfg = 0 then argCfg\<lparr>Days := Days envCfg\<rparr> else argCfg) in
      if length (Folders argCfg) = 0 then argCfg\<lparr>Folders := Folders envCfg\<rparr> else argCfg)"

section \<open>main\<close>

text \<open>
  \<open>log.Fatal\<close> and \<open>log.Fatalf\<close> end the process with exit status 1. The three calls
  of \<open>main\<close> are told apart by the reason.
\<close>

datatype fatal = BadDays | YAMLReadFailed error | MissingParameters

text \<open>\<open>writeLog\<close>: the line appended to \<open>cleanup.log\<close>, or \<open>None\<close> for an error.\<close>

definition writeLog :: "platform \<Rightarrow> time \<Rightarrow> int \<Rightarrow> int \<Rightarrow> (time \<times> int \<times> int) option" where
  "writeLog x timestamp totalFiles deletedFiles =
     (if logWritable x then Some (timestamp, totalFiles, deletedFiles) else None)"

text \<open>Lines 171 to 194 of \<open>main\<close>: the configuration given by the arguments.\<close>

definition argsConfig :: "platform \<Rightarrow> string list \<Rightarrow> fatal + Config" where
  "argsConfig x args =
     (case args of
        [] \<Rightarrow> Inr emptyConfig
      | a # rest \<Rightarrow>
          if isNumber a then
            (case Atoi a of
               None \<Rightarrow> Inl BadDays
             | Some days \<Rightarrow>
                 Inr (if length args > 1 then \<lparr>Days = days, Folders = rest\<rparr>
                      else \<lparr>Days = days, Folders = []\<rparr>))
          else
            (case readYAMLConfig x a of
               Inl err \<Rightarrow> Inl (YAMLReadFailed err)
             | Inr loadedCfg \<Rightarrow> Inr loadedCfg))"

text \<open>Lines 171 to 198: the arguments merged with the environment.\<close>

definition loadConfig :: "platform \<Rightarrow> string list \<Rightarrow> fatal + Config" where
  "loadConfig x args =
     (case argsConfig x args of
        Inl f \<Rightarrow> Inl f
      | Inr cfg \<Rightarrow> (let envCfg = fst (parseEnvConfig x) in Inr (mergeConfigs cfg envCfg)))"

text \<open>
  The loop over the folders, lines 207 to 225. A panic of \<open>processFolder\<close> ends it
  (\<open>Inl\<close>).
\<close>

fun cleanFolders ::
  "location \<Rightarrow> int \<Rightarrow> string list \<Rightarrow> filesystem \<times> int \<times> int \<times> logline list
     \<Rightarrow> filesystem \<times> logline list + filesystem \<times> int \<times> int \<times> logline list" where
  "cleanFolders loc days [] st = Inr st"
| "cleanFolders loc days (folder0 # rest) (fs, overallTotal, overallDeleted, lg) =
     (let folder = TrimSpace folder0 in
      if folder = [] then cleanFolders loc days rest (fs, overallTotal, overallDeleted, lg)
      else if \<not> os_Stat_IsDir fs folder then
        cleanFolders loc days rest
          (fs, overallTotal, overallDeleted, lg @ [LogFolderSkipped folder])
      else
        (case processFolder loc fs folder days of
           Inl (fs', lg') \<Rightarrow> Inl (fs', lg @ lg')
         | Inr ((seen, deleted, Some err), fs', lg') \<Rightarrow>
             cleanFolders loc days rest
               (fs', overallTotal, overallDeleted, lg @ lg' @ [LogFolderError folder])
         | Inr ((seen, deleted, None), fs', lg') \<Rightarrow>
             cleanFolders loc days rest
               (fs', overallTotal + seen, overallDeleted + deleted, lg @ lg')))"

text \<open>
  How a run ends: the usage text was printed, a fatal error, a panic (with the file
  system as it is then and the lines logged), or a completed run with the file system
  it leaves, the two totals, the lines logged and the line written to \<open>cleanup.log\<close>
  (if it could be written).
\<close>

datatype outcome =
    Usage
  | Fatal fatal
  | Panicked filesystem "logline list"
  | Completed filesystem int int "logline list" "(time \<times> int \<times> int) option"

text \<open>
  \<open>main\<close> after \<open>flag.Parse()\<close>: \<open>help\<close> is the value of the flag, \<open>args\<close> is
  \<open>flag.Args()\<close>, \<open>now\<close> is what \<open>time.Now()\<close> answers at line 227.
\<close>

definition main :: "platform \<Rightarrow> bool \<Rightarrow> string list \<Rightarrow> time \<Rightarrow> filesystem \<Rightarrow> outcome" where
  "main x help args now fs =
     (if help then Usage
      else
        (case loadConfig x args of
           Inl f \<Rightarrow> Fatal f
         | Inr cfg \<Rightarrow>
             if Days cfg \<le> 0 \<or> length (Folders cfg) = 0 then Fatal MissingParameters
             else
               (case cleanFolders (Local x) (Days cfg) (Folders cfg) (fs, 0, 0, []) of
                  Inl (fs', lg) \<Rightarrow> Panicked fs' lg
                | Inr (fs', overallTotal, overallDeleted, lg) \<Rightarrow>
                    (case writeLog x now overallTotal overallDeleted of
                       None \<Rightarrow> Completed fs' overallTotal overallDeleted (lg @ [LogWriteError]) None
                     | Some line \<Rightarrow>
                         Completed fs' overallTotal overallDeleted (lg @ [LogWritten])
                           (Some line)))))"

text \<open>The exit status: 1 after \<open>log.Fatal\<close>, 2 after a panic, 0 otherwise.\<close>

definition exitStatus :: "outcome \<Rightarrow> int" where
  "exitStatus out = (case out of Fatal f \<Rightarrow> 1 | Panicked fs lg \<Rightarrow> 2 | _ \<Rightarrow> 0)"


section \<open>Notions used to state the properties\<close>

text \<open>
  The path that \<open>processFolder\<close> builds for the entry called \<open>n\<close> of a folder,
  \<open>filepath.Join(folder, n)\<close>, names the entry called \<open>n\<close> of directory \<open>d\<close>. For the
  entries of a folder whose path \<open>Clean\<close> leaves alone this is so by itself; it
  fails for a folder such as \<open>a/link/..\<close> with a symbolic link \<open>a/link\<close>, where the
  joined path is \<open>a/n\<close>.
\<close>

definition joinsInto :: "filesystem \<Rightarrow> string \<Rightarrow> nat \<Rightarrow> string \<Rightarrow> bool" where
  "joinsInto fs folder d n =
     (case splitPath (filepath_Join folder n) of
        (dir, base) \<Rightarrow>
          base = n \<and> (dirAt fs dir = Dir True d \<or> dirAt fs dir = Dir False d))"

text \<open>The entry called \<open>n\<close> of directory \<open>d\<close>, if there is one.\<close>

definition entryOf :: "filesystem \<Rightarrow> nat \<Rightarrow> string \<Rightarrow> dirent option" where
  "entryOf fs d n = find (\<lambda>f. fname f = n) (content fs d)"


text \<open>
  A file is removed by the second loop when its time stamps can be read, both are
  before the cutoff and \<open>os.Remove\<close> succeeds on it.
\<close>

definition doomed :: "time \<Rightarrow> dirent \<Rightarrow> bool" where
  "doomed cutoff f =
     (case stat f of
        Some (m, Some b) \<Rightarrow> Before m cutoff \<and> Before b cutoff \<and> removable f
      | _ \<Rightarrow> False)"

text \<open>What the second loop logs for one file, and what the first loop logs for it.\<close>

definition deleteLine :: "string \<Rightarrow> time \<Rightarrow> dirent \<Rightarrow> logline list" where
  "deleteLine folder cutoff f =
     (case stat f of
        None \<Rightarrow> [LogStatError (filepath_Join folder (fname f))]
      | Some (m, None) \<Rightarrow> []
      | Some (m, Some b) \<Rightarrow>
          if Before m cutoff \<and> Before b cutoff
          then (if removable f then [LogRemoved (filepath_Join folder (fname f))]
                else [LogRemoveError (filepath_Join folder (fname f))])
          else [])"

definition scanLine :: "string \<Rightarrow> dirent \<Rightarrow> logline list" where
  "scanLine folder f =
     (case stat f of None \<Rightarrow> [LogStatError (filepath_Join folder (fname f))] | Some p \<Rightarrow> [])"

text \<open>
  The larger of modification time and birth time, for each regular file whose time
  stamps can be read.
\<close>

definition stamps :: "dirent list \<Rightarrow> time list" where
  "stamps es =
     concat (map (\<lambda>f. case stat f of Some (m, Some b) \<Rightarrow> [max m b] | _ \<Rightarrow> [])
               (filter regular es))"


text \<open>Whether a line of the log reports a removal that succeeded.\<close>

definition isRemoved :: "logline \<Rightarrow> bool" where
  "isRemoved l = (case l of LogRemoved p \<Rightarrow> True | _ \<Rightarrow> False)"

text \<open>
  What the environment gives when \<open>DAYS\<close> is not set or is a number: the days (0 when
  not set) and the folders of \<open>FOLDERS\<close>, split at the commas and trimmed.
\<close>

definition envDays :: "platform \<Rightarrow> int" where
  "envDays x = (case Atoi (Getenv x ''DAYS'') of None \<Rightarrow> 0 | Some d \<Rightarrow> d)"

definition envFolders :: "platform \<Rightarrow> string list" where
  "envFolders x =
     (if Getenv x ''FOLDERS'' = [] then []
      else map TrimSpace (Split_comma (Getenv x ''FOLDERS'')))"


section \<open>A sample file system\<close>

text \<open>
  Directory 11, \<open>/data\<close>, holds a fresh file, a stale one, a stale one that cannot be
  removed, one whose time stamps cannot be read, one whose modification time is exactly
  seven days before the fresh file's, and a subdirectory. In directory 12, \<open>/backup\<close>,
  every time stamp can be read; in directory 13, \<open>/ghosts\<close>, none. Directory 14 is
  \<open>/srv\<close>; \<open>/srv/link\<close> is a symbolic link to \<open>/backup/sub\<close>, so that
  \<open>/srv/link/..\<close> names directory 12. The file of directory 15, \<open>/nobirth\<close>, has no
  birth time. \<open>/locked\<close> cannot be listed and \<open>/etc/passwd\<close> is a file.
\<close>

definition sampleEntries :: "dirent list" where
  "sampleEntries =
     [\<lparr>fname = ''fresh.log'', regular = True,
        stat = Some (100 * nsPerDay, Some (99 * nsPerDay)), removable = True\<rparr>,
      \<lparr>fname = ''stale.log'', regular = True,
        stat = Some (10 * nsPerDay, Some (9 * nsPerDay)), removable = True\<rparr>,
      \<lparr>fname = ''locked.log'', regular = True,
        stat = Some (10 * nsPerDay, Some (9 * nsPerDay)), removable = False\<rparr>,
      \<lparr>fname = ''ghost.log'', regular = True, stat = None, removable = True\<rparr>,
      \<lparr>fname = ''edge.log'', regular = True,
        stat = Some (93 * nsPerDay, Some (9 * nsPerDay)), removable = True\<rparr>,
      \<lparr>fname = ''sub'', regular = False, stat = Some (1, Some 1), removable = True\<rparr>]"

definition backupEntries :: "dirent list" where
  "backupEntries =
     [\<lparr>fname = ''fresh.log'', regular = True,
        stat = Some (100 * nsPerDay, Some (99 * nsPerDay)), removable = True\<rparr>,
      \<lparr>fname = ''stale.log'', regular = True,
        stat = Some (10 * nsPerDay, Some (9 * nsPerDay)), removable = True\<rparr>,
      \<lparr>fname = ''sub'', regular = False, stat = Some (1, Some 1), removable = True\<rparr>]"

definition srvEntries :: "dirent list" where
  "srvEntries =
     [\<lparr>fname = ''fresh.log'', regular = True,
        stat = Some (100 * nsPerDay, Some (99 * nsPerDay)), removable = True\<rparr>,
      \<lparr>fname = ''link'', regular = False, stat = Some (1, Some 1), removable = True\<rparr>,
      \<lparr>fname = ''stale.log'', regular = True,
        stat = Some (10 * nsPerDay, Some (9 * nsPerDay)), removable = True\<rparr>]"

definition sampleFs :: filesystem where
  "sampleFs =
     \<lparr>dirAt = (\<lambda>p. if p = ''/data'' then Dir True 11
                   else if p = ''/backup'' then Dir True 12
                   else if p = ''/ghosts'' then Dir True 13
                   else if p = ''/srv'' then Dir True 14
                   else if p = ''/srv/link/..'' then Dir True 12
                   else if p = ''/nobirth'' then Dir True 15
                   else if p = ''/locked'' then Dir False 16
                   else if p = ''/etc/passwd'' then NotDir
                   else NoEntry),
      content = (\<lambda>d. if d = 11 then sampleEntries
                     else if d = 12 then backupEntries
                     else if d = 13 then
                       [\<lparr>fname = ''ghost.log'', regular = True, stat = None,
                          removable = True\<rparr>]
                     else if d = 14 then srvEntries
                     else if d = 15 then
                       [\<lparr>fname = ''old.log'', regular = True,
                          stat = Some (10 * nsPerDay, None), removable = True\<rparr>]
                     else [])\<rparr>"

text \<open>
  A zone that is one hour east of UTC until the end of day 95 after the zero Time
  (the Unix time -62127388800) and two hours east from then on.
\<close>

definition summerLoc :: location where
  "summerLoc =
     (\<lambda>sec. if sec < - 62127388800 then (3600, - (2 ^ 63), - 62127388800)
            else (7200, - 62127388800, 2 ^ 63 - 1))"

text \<open>
  A platform with the two environment variables as given, a configuration file
  \<open>config.yml\<close> that sets three days and no folders, a file \<open>broken.yml\<close> that is
  not valid YAML, a writable \<open>cleanup.log\<close> and UTC as the local time zone.
\<close>

definition samplePlatform :: "string \<Rightarrow> string \<Rightarrow> platform" where
  "samplePlatform days folders =
     \<lparr>Getenv = (\<lambda>v. if v = ''DAYS'' then days else if v = ''FOLDERS'' then folders else []),
      os_ReadFile = (\<lambda>p. if p = ''config.yml'' then Some ''days: 3''
                          else if p = ''broken.yml'' then Some ''days: [''
                          else None),
      yaml_Unmarshal = (\<lambda>d. if d = ''days: 3'' then Some \<lparr>Days = 3, Folders = []\<rparr> else None),
      logWritable = True,
      Local = utcLoc\<rparr>"




section \<open>The two loops in closed form\<close>

text \<open>
  For the entries of a directory with distinct names, each named by the path that
  \<open>processFolder\<close> builds for it, \<open>times.Stat\<close> and \<open>os.Remove\<close> act on the
  entry itself, and the two loops have closed forms.
\<close>

lemma find_distinct:
  "distinct (map fname es) \<Longrightarrow> f \<in> set es \<Longrightarrow> find (\<lambda>g. fname g = fname f) es = Some f"
  by (induction es) (auto simp: image_iff)

lemma fileAt_listed:
  assumes "distinct (map fname (content fs d))" and "f \<in> set (content fs d)"
    and "joinsInto fs folder d (fname f)"
  shows "fileAt fs (filepath_Join folder (fname f)) = Some (d, f)"
proof -
  obtain dir base where sp: "splitPath (filepath_Join folder (fname f)) = (dir, base)"
    by (cases "splitPath (filepath_Join folder (fname f))")
  with assms(3) have b: "base = fname f"
    and dr: "dirAt fs dir = Dir True d \<or> dirAt fs dir = Dir False d"
    by (simp_all add: joinsInto_def)
  from dr show ?thesis
    by (auto simp: fileAt_def sp b find_distinct[OF assms(1,2)])
qed

lemma times_Stat_listed:
  assumes "distinct (map fname (content fs d))" and "f \<in> set (content fs d)"
    and "joinsInto fs folder d (fname f)"
  shows "times_Stat fs (filepath_Join folder (fname f)) = stat f"
  by (simp add: times_Stat_def fileAt_listed[OF assms])

lemma filter_names:
  "distinct (map fname es) \<Longrightarrow> e \<in> set es \<Longrightarrow>
   filter (\<lambda>g. fname g \<noteq> fname e) es = filter (\<lambda>g. g \<noteq> e) es"
  by (rule filter_cong) (auto simp: distinct_map inj_on_def)

lemma os_Remove_listed:
  assumes "distinct (map fname (content fs d))" and "f \<in> set (content fs d)"
    and "joinsInto fs folder d (fname f)"
  shows "os_Remove fs (filepath_Join folder (fname f)) =
     (if removable f
      then Some (fs\<lparr>content := (content fs)(d := filter (\<lambda>g. g \<noteq> f) (content fs d))\<rparr>)
      else None)"
  by (simp add: os_Remove_def fileAt_listed[OF assms] filter_names[OF assms(1,2)])

lemma joinsInto_content [simp]:
  "joinsInto (fs\<lparr>content := c\<rparr>) folder d n = joinsInto fs folder d n"
  by (simp add: joinsInto_def)

lemma scanEntries_closed:
  assumes "\<forall>f\<in>set es. regular f \<longrightarrow> times_Stat fs (filepath_Join folder (fname f)) = stat f"
    and "\<forall>f\<in>set es. regular f \<longrightarrow> (\<forall>m. stat f \<noteq> Some (m, None))"
  shows "scanEntries fs folder es (t, fe, n, lg) =
     Inr (t + int (length (filter regular es)), fe @ filter regular es,
      fold max (stamps es) n, lg @ concat (map (scanLine folder) (filter regular es)))"
  using assms
proof (induction es arbitrary: t fe n lg)
  case Nil
  then show ?case by (simp add: stamps_def)
next
  case (Cons e es)
  show ?case
  proof (cases "regular e")
    case False
    with Cons show ?thesis by (simp add: stamps_def)
  next
    case True
    show ?thesis
    proof (cases "stat e")
      case None
      with True Cons show ?thesis by (simp add: stamps_def scanLine_def)
    next
      case (Some mb)
      obtain m bo where mb: "mb = (m, bo)" by (cases mb)
      with Some True Cons.prems(2) obtain b where bo: "bo = Some b" by (cases bo) auto
      with Some mb True Cons show ?thesis
        by (simp add: stamps_def scanLine_def After_def max_def)
    qed
  qed
qed

lemma scanEntries_births:
  assumes "scanEntries fs folder es acc = Inr acc'"
    and "f \<in> set es" and "regular f"
  shows "times_Stat fs (filepath_Join folder (fname f)) \<noteq> Some (m, None)"
  using assms
proof (induction es arbitrary: acc)
  case Nil
  then show ?case by simp
next
  case (Cons e es)
  obtain t fe n lg where acc: "acc = (t, fe, n, lg)" by (cases acc)
  show ?case
  proof (cases "regular e")
    case False
    with Cons acc show ?thesis by auto
  next
    case True
    show ?thesis
    proof (cases "times_Stat fs (filepath_Join folder (fname e))")
      case None
      with True Cons acc show ?thesis by (auto simp: Let_def)
    next
      case (Some mb)
      obtain m' bo where mb: "mb = (m', bo)" by (cases mb)
      show ?thesis
      proof (cases bo)
        case None
        with Some mb True Cons.prems(1) acc show ?thesis by (simp add: Let_def)
      next
        case (Some b)
        with \<open>times_Stat fs (filepath_Join folder (fname e)) = Some mb\<close> mb True Cons acc
        show ?thesis by (auto simp: Let_def)
      qed
    qed
  qed
qed

lemma deleteOld_step:
  assumes "distinct (map fname (content fs d))" and "e \<in> set (content fs d)"
    and "joinsInto fs folder d (fname e)" and "\<forall>m. stat e \<noteq> Some (m, None)"
  shows "deleteOld folder c (e # entries) (fs, k, lg) =
     deleteOld folder c entries
       (if doomed c e
        then fs\<lparr>content := (content fs)(d := filter (\<lambda>g. g \<noteq> e) (content fs d))\<rparr>
        else fs,
        k + (if doomed c e then 1 else 0), lg @ deleteLine folder c e)"
proof -
  have st: "times_Stat fs (filepath_Join folder (fname e)) = stat e"
    using assms(1,2,3) by (rule times_Stat_listed)
  have rm: "os_Remove fs (filepath_Join folder (fname e)) =
     (if removable e
      then Some (fs\<lparr>content := (content fs)(d := filter (\<lambda>g. g \<noteq> e) (content fs d))\<rparr>)
      else None)"
    using assms(1,2,3) by (rule os_Remove_listed)
  show ?thesis
  proof (cases "stat e")
    case None
    then show ?thesis by (simp add: st doomed_def deleteLine_def)
  next
    case (Some mb)
    obtain m bo where mb: "mb = (m, bo)" by (cases mb)
    with Some assms(4) obtain b where bo: "bo = Some b" by (cases bo) auto
    show ?thesis
    proof (cases "Before m c \<and> Before b c")
      case False
      then show ?thesis using Some mb bo by (auto simp: st doomed_def deleteLine_def)
    next
      case True
      then show ?thesis using Some mb bo
        by (cases "removable e") (simp_all add: st rm doomed_def deleteLine_def)
    qed
  qed
qed

lemma deleteOld_closed:
  assumes "distinct (map fname (content fs d))" and "set entries \<subseteq> set (content fs d)"
    and "distinct entries"
    and "\<forall>f\<in>set entries. joinsInto fs folder d (fname f)"
    and "\<forall>f\<in>set entries. \<forall>m. stat f \<noteq> Some (m, None)"
  shows "deleteOld folder c entries (fs, k, lg) =
     Inr (fs\<lparr>content := (content fs)
               (d := filter (\<lambda>g. \<not> (g \<in> set entries \<and> doomed c g)) (content fs d))\<rparr>,
      k + int (length (filter (doomed c) entries)),
      lg @ concat (map (deleteLine folder c) entries))"
  using assms
proof (induction entries arbitrary: fs k lg)
  case Nil
  then show ?case by simp
next
  case (Cons e entries)
  let ?cur = "content fs d"
  have e: "e \<in> set ?cur" and ne: "e \<notin> set entries" using Cons.prems by auto
  have step: "deleteOld folder c (e # entries) (fs, k, lg) =
     deleteOld folder c entries
       (if doomed c e
        then fs\<lparr>content := (content fs)(d := filter (\<lambda>g. g \<noteq> e) ?cur)\<rparr>
        else fs,
        k + (if doomed c e then 1 else 0), lg @ deleteLine folder c e)"
    using Cons.prems e by (intro deleteOld_step) auto
  show ?case
  proof (cases "doomed c e")
    case False
    have keep: "filter (\<lambda>g. \<not> (g \<in> set (e # entries) \<and> doomed c g)) ?cur
        = filter (\<lambda>g. \<not> (g \<in> set entries \<and> doomed c g)) ?cur"
      using False by (intro filter_cong) auto
    have "deleteOld folder c entries (fs, k, lg @ deleteLine folder c e) =
      Inr (fs\<lparr>content := (content fs)
               (d := filter (\<lambda>g. \<not> (g \<in> set entries \<and> doomed c g)) ?cur)\<rparr>,
      k + int (length (filter (doomed c) entries)),
      (lg @ deleteLine folder c e) @ concat (map (deleteLine folder c) entries))"
      using Cons.prems by (intro Cons.IH) auto
    then have "deleteOld folder c entries (fs, k, lg @ deleteLine folder c e) =
      Inr (fs\<lparr>content := (content fs)
               (d := filter (\<lambda>g. \<not> (g \<in> set (e # entries) \<and> doomed c g)) ?cur)\<rparr>,
      k + int (length (filter (doomed c) entries)),
      (lg @ deleteLine folder c e) @ concat (map (deleteLine folder c) entries))"
      unfolding keep .
    then show ?thesis using False by (simp add: step fun_upd_def del: deleteOld.simps)
  next
    case True
    let ?cur' = "filter (\<lambda>g. g \<noteq> e) ?cur"
    let ?fs = "fs\<lparr>content := (content fs)(d := ?cur')\<rparr>"
    have c': "content ?fs d = ?cur'" by simp
    have 1: "distinct (map fname (content ?fs d))"
      using Cons.prems(1) by (simp add: distinct_map_filter)
    have 2: "set entries \<subseteq> set (content ?fs d)" using Cons.prems ne by auto
    have 3: "distinct entries" using Cons.prems by simp
    have 4: "\<forall>f\<in>set entries. joinsInto ?fs folder d (fname f)" using Cons.prems by simp
    have 5: "\<forall>f\<in>set entries. \<forall>m. stat f \<noteq> Some (m, None)" using Cons.prems by simp
    have keep: "filter (\<lambda>g. \<not> (g \<in> set entries \<and> doomed c g)) ?cur'
        = filter (\<lambda>g. \<not> (g \<in> set (e # entries) \<and> doomed c g)) ?cur"
      using True by (auto intro: filter_cong)
    have ih: "deleteOld folder c entries (?fs, k + 1, lg @ deleteLine folder c e) =
      Inr (?fs\<lparr>content := (content ?fs)
               (d := filter (\<lambda>g. \<not> (g \<in> set entries \<and> doomed c g)) (content ?fs d))\<rparr>,
      k + 1 + int (length (filter (doomed c) entries)),
      (lg @ deleteLine folder c e) @ concat (map (deleteLine folder c) entries))"
      using 1 2 3 4 5 by (rule Cons.IH)
    have a: "(content ?fs)(d := Y) = (content fs)(d := Y)" for Y by simp
    have b: "?fs\<lparr>content := Z\<rparr> = fs\<lparr>content := Z\<rparr>" for Z by simp
    have "deleteOld folder c entries (?fs, k + 1, lg @ deleteLine folder c e) =
      Inr (fs\<lparr>content := (content fs)
               (d := filter (\<lambda>g. \<not> (g \<in> set (e # entries) \<and> doomed c g)) ?cur)\<rparr>,
      k + 1 + int (length (filter (doomed c) entries)),
      (lg @ deleteLine folder c e) @ concat (map (deleteLine folder c) entries))"
      using ih unfolding c' keep a b .
    then show ?thesis using True by (simp add: step fun_upd_def del: deleteOld.simps)
  qed
qed

lemma fold_max_stamps: "fold max xs (n::int) = Max (set (n # xs))"
  by (simp add: Max.set_eq_fold[symmetric])

lemma processFolder_closed:
  assumes "dirAt fs folder = Dir True d" and "distinct (map fname (content fs d))"
    and "\<forall>f\<in>set (content fs d). regular f \<longrightarrow> joinsInto fs folder d (fname f)"
    and "\<forall>f\<in>set (content fs d). regular f \<longrightarrow> (\<forall>m. stat f \<noteq> Some (m, None))"
  shows "processFolder loc fs folder days =
    Inr (if fold max (stamps (content fs d)) zeroTime = zeroTime then
       ((int (length (filter regular (content fs d))), 0, None), fs,
        concat (map (scanLine folder) (filter regular (content fs d))) @ [LogNoFiles folder])
     else
       ((int (length (filter regular (content fs d))),
         int (length (filter (doomed (AddDate_days loc (fold max (stamps (content fs d)) zeroTime)
                  (- days))) (filter regular (content fs d)))), None),
        fs\<lparr>content := (content fs)(d := filter (\<lambda>g. \<not> (regular g \<and>
               doomed (AddDate_days loc (fold max (stamps (content fs d)) zeroTime) (- days)) g))
               (content fs d))\<rparr>,
        concat (map (scanLine folder) (filter regular (content fs d))) @
        [LogCutoff folder (fold max (stamps (content fs d)) zeroTime)
           (AddDate_days loc (fold max (stamps (content fs d)) zeroTime) (- days))] @
        concat (map (deleteLine folder
              (AddDate_days loc (fold max (stamps (content fs d)) zeroTime) (- days)))
           (filter regular (content fs d)))))"
proof -
  let ?es = "content fs d"
  have st: "\<forall>f\<in>set ?es. regular f \<longrightarrow> times_Stat fs (filepath_Join folder (fname f)) = stat f"
    using assms(2,3) by (simp add: times_Stat_listed)
  have sc: "scanEntries fs folder ?es (0, [], zeroTime, []) =
     Inr (int (length (filter regular ?es)), filter regular ?es,
      fold max (stamps ?es) zeroTime, concat (map (scanLine folder) (filter regular ?es)))"
    using scanEntries_closed[OF st assms(4), of 0 "[]" zeroTime "[]"] by simp
  have dl: "deleteOld folder c (filter regular ?es) (fs, 0, lg) =
     Inr (fs\<lparr>content := (content fs)(d := filter (\<lambda>g. \<not> (regular g \<and> doomed c g)) ?es)\<rparr>,
      int (length (filter (doomed c) (filter regular ?es))),
      lg @ concat (map (deleteLine folder c) (filter regular ?es)))" for c lg
  proof -
    have "deleteOld folder c (filter regular ?es) (fs, 0, lg) =
     Inr (fs\<lparr>content := (content fs)
             (d := filter (\<lambda>g. \<not> (g \<in> set (filter regular ?es) \<and> doomed c g)) ?es)\<rparr>,
      0 + int (length (filter (doomed c) (filter regular ?es))),
      lg @ concat (map (deleteLine folder c) (filter regular ?es)))"
      using assms by (intro deleteOld_closed) (auto simp: distinct_map)
    moreover have "filter (\<lambda>g. \<not> (g \<in> set (filter regular ?es) \<and> doomed c g)) ?es
        = filter (\<lambda>g. \<not> (regular g \<and> doomed c g)) ?es"
      by (intro filter_cong) auto
    ultimately show ?thesis by simp
  qed
  show ?thesis
    by (simp add: processFolder_def os_ReadDir_def assms(1) sc IsZero_def dl
        Let_def del: deleteOld.simps scanEntries.simps)
qed

lemma processFolder_births:
  assumes "dirAt fs folder = Dir True d" and "distinct (map fname (content fs d))"
    and "\<forall>f\<in>set (content fs d). regular f \<longrightarrow> joinsInto fs folder d (fname f)"
    and "processFolder loc fs folder days = Inr res"
  shows "\<forall>f\<in>set (content fs d). regular f \<longrightarrow> (\<forall>m. stat f \<noteq> Some (m, None))"
proof (intro ballI impI allI)
  fix f m assume f: "f \<in> set (content fs d)" "regular f"
  from assms(4) obtain acc where
    sc: "scanEntries fs folder (content fs d) (0, [], zeroTime, []) = Inr acc"
    by (auto simp: processFolder_def os_ReadDir_def assms(1) split: sum.splits)
  from scanEntries_births[OF sc f]
  have "times_Stat fs (filepath_Join folder (fname f)) \<noteq> Some (m, None)" .
  moreover have "times_Stat fs (filepath_Join folder (fname f)) = stat f"
    using assms(2,3) f by (simp add: times_Stat_listed)
  ultimately show "stat f \<noteq> Some (m, None)" by simp
qed

lemma scanLine_no_cutoff: "LogCutoff a n c \<notin> set (scanLine folder x)"
  by (auto simp: scanLine_def split: option.splits)

lemma deleteLine_no_cutoff: "LogCutoff a n c \<notin> set (deleteLine folder k x)"
  by (auto simp: deleteLine_def split: option.splits if_splits)

lemma processFolder_facts:
  assumes "dirAt fs folder = Dir True d" and "distinct (map fname (content fs d))"
    and "\<forall>f\<in>set (content fs d). regular f \<longrightarrow> joinsInto fs folder d (fname f)"
    and "processFolder loc fs folder days = Inr (r, fs', lg)"
  shows "fold max (stamps (content fs d)) zeroTime = zeroTime \<Longrightarrow>
           fs' = fs \<and> (\<forall>n c. LogCutoff folder n c \<notin> set lg) \<and>
           r = (int (length (filter regular (content fs d))), 0, None) \<and>
           lg = concat (map (scanLine folder) (filter regular (content fs d))) @
                [LogNoFiles folder]"
    and "fold max (stamps (content fs d)) zeroTime \<noteq> zeroTime \<Longrightarrow>
           fs' = fs\<lparr>content := (content fs)(d := filter (\<lambda>g. \<not> (regular g \<and>
               doomed (AddDate_days loc (fold max (stamps (content fs d)) zeroTime) (- days)) g))
               (content fs d))\<rparr> \<and>
           (\<forall>n c. LogCutoff folder n c \<in> set lg \<longleftrightarrow>
               n = fold max (stamps (content fs d)) zeroTime \<and>
               c = AddDate_days loc n (- days)) \<and>
           r = (int (length (filter regular (content fs d))),
                int (length (filter (doomed (AddDate_days loc
                    (fold max (stamps (content fs d)) zeroTime) (- days)))
                  (filter regular (content fs d)))), None) \<and>
           lg = concat (map (scanLine folder) (filter regular (content fs d))) @
                [LogCutoff folder (fold max (stamps (content fs d)) zeroTime)
                   (AddDate_days loc (fold max (stamps (content fs d)) zeroTime) (- days))] @
                concat (map (deleteLine folder
                   (AddDate_days loc (fold max (stamps (content fs d)) zeroTime) (- days)))
                  (filter regular (content fs d)))"
proof -
  note b = processFolder_births[OF assms]
  note c = processFolder_closed[of fs folder d loc days, OF assms(1,2,3) b]
  show "fold max (stamps (content fs d)) zeroTime = zeroTime \<Longrightarrow>
           fs' = fs \<and> (\<forall>n c. LogCutoff folder n c \<notin> set lg) \<and>
           r = (int (length (filter regular (content fs d))), 0, None) \<and>
           lg = concat (map (scanLine folder) (filter regular (content fs d))) @
                [LogNoFiles folder]"
    using assms(4) unfolding c by (auto simp: scanLine_no_cutoff)
  show "fold max (stamps (content fs d)) zeroTime \<noteq> zeroTime \<Longrightarrow>
           fs' = fs\<lparr>content := (content fs)(d := filter (\<lambda>g. \<not> (regular g \<and>
               doomed (AddDate_days loc (fold max (stamps (content fs d)) zeroTime) (- days)) g))
               (content fs d))\<rparr> \<and>
           (\<forall>n c. LogCutoff folder n c \<in> set lg \<longleftrightarrow>
               n = fold max (stamps (content fs d)) zeroTime \<and>
               c = AddDate_days loc n (- days)) \<and>
           r = (int (length (filter regular (content fs d))),
                int (length (filter (doomed (AddDate_days loc
                    (fold max (stamps (content fs d)) zeroTime) (- days)))
                  (filter regular (content fs d)))), None) \<and>
           lg = concat (map (scanLine folder) (filter regular (content fs d))) @
                [LogCutoff folder (fold max (stamps (content fs d)) zeroTime)
                   (AddDate_days loc (fold max (stamps (content fs d)) zeroTime) (- days))] @
                concat (map (deleteLine folder
                   (AddDate_days loc (fold max (stamps (content fs d)) zeroTime) (- days)))
                  (filter regular (content fs d)))"
    using assms(4) unfolding c by (auto simp: scanLine_no_cutoff deleteLine_no_cutoff)
qed

lemma find_filter_distinct:
  assumes "distinct (map fname es)" and "f \<in> set es"
  shows "find (\<lambda>g. fname g = fname f) (filter P es) = (if P f then Some f else None)"
proof (cases "P f")
  case True
  have "distinct (map fname (filter P es))" using assms(1) by (simp add: distinct_map_filter)
  moreover have "f \<in> set (filter P es)" using True assms(2) by simp
  ultimately show ?thesis using True by (simp add: find_distinct)
next
  case False
  have "\<not> (\<exists>g\<in>set (filter P es). fname g = fname f)"
    using assms False by (auto simp: distinct_map inj_on_def)
  then show ?thesis using False by (simp add: find_None_iff)
qed

section \<open>The entries left and the newest time stamp\<close>

lemma entryOf_listed:
  "distinct (map fname (content fs d)) \<Longrightarrow> f \<in> set (content fs d) \<Longrightarrow>
   entryOf fs d (fname f) = Some f"
  by (simp add: entryOf_def find_distinct)

lemma entryOf_filter:
  assumes "distinct (map fname (content fs d))" and "f \<in> set (content fs d)"
  shows "entryOf (fs\<lparr>content := (content fs)(d := filter P (content fs d))\<rparr>) d (fname f) =
         (if P f then Some f else None)"
  using assms by (simp add: entryOf_def find_filter_distinct)


lemma newest_is_Max:
  assumes "\<exists>t\<in>set (stamps es). After t zeroTime"
  shows "fold max (stamps es) zeroTime = Max (set (stamps es))"
    and "fold max (stamps es) zeroTime \<noteq> zeroTime"
proof -
  from assms obtain t where t: "t \<in> set (stamps es)" "zeroTime < t"
    by (auto simp: After_def)
  then have ne: "set (stamps es) \<noteq> {}" by auto
  have "Max (insert zeroTime (set (stamps es))) = max zeroTime (Max (set (stamps es)))"
    using ne by simp
  moreover have "t \<le> Max (set (stamps es))" using t by simp
  ultimately show "fold max (stamps es) zeroTime = Max (set (stamps es))"
    using t by (simp add: fold_max_stamps)
  then show "fold max (stamps es) zeroTime \<noteq> zeroTime"
    using \<open>t \<le> Max (set (stamps es))\<close> t(2) by linarith
qed

lemma newest_is_zero:
  assumes "\<forall>t\<in>set (stamps es). \<not> After t zeroTime"
  shows "fold max (stamps es) zeroTime = zeroTime"
proof -
  have "Max (insert zeroTime (set (stamps es))) = zeroTime"
    using assms by (intro Max_eqI) (auto simp: After_def)
  then show ?thesis by (simp add: fold_max_stamps)
qed

lemma cutoff_logged_iff:
  assumes "dirAt fs folder = Dir True d" and "distinct (map fname (content fs d))"
    and "\<forall>g\<in>set (content fs d). regular g \<longrightarrow> joinsInto fs folder d (fname g)"
    and "processFolder loc fs folder days = Inr (r, fs', lg)"
  shows "(\<exists>n c. LogCutoff folder n c \<in> set lg) \<longleftrightarrow>
         (\<exists>t\<in>set (stamps (content fs d)). After t zeroTime)"
proof (cases "fold max (stamps (content fs d)) zeroTime = zeroTime")
  case True
  from processFolder_facts(1)[OF assms True]
  have "\<forall>n c. LogCutoff folder n c \<notin> set lg" by blast
  moreover have "\<not> (\<exists>t\<in>set (stamps (content fs d)). After t zeroTime)"
    using newest_is_Max(2)[of "content fs d"] True by blast
  ultimately show ?thesis by blast
next
  case False
  from processFolder_facts(2)[OF assms False]
  have "\<forall>n c. LogCutoff folder n c \<in> set lg \<longleftrightarrow>
               n = fold max (stamps (content fs d)) zeroTime \<and>
               c = AddDate_days loc n (- days)" by blast
  then have "\<exists>n c. LogCutoff folder n c \<in> set lg" by blast
  moreover have "\<exists>t\<in>set (stamps (content fs d)). After t zeroTime"
    using newest_is_zero[of "content fs d"] False by blast
  ultimately show ?thesis by blast
qed

lemma scanEntries_no_regular:
  "\<forall>f\<in>set es. \<not> regular f \<Longrightarrow> scanEntries fs folder es acc = Inr acc"
proof (induction es)
  case Nil
  show ?case by simp
next
  case (Cons e es)
  obtain t fe n lg where "acc = (t, fe, n, lg)" by (cases acc)
  with Cons show ?case by simp
qed

lemma scanEntries_all_fail:
  assumes "\<forall>f\<in>set es. regular f \<longrightarrow> times_Stat fs (filepath_Join folder (fname f)) = None"
  shows "scanEntries fs folder es (t, fe, n, lg) =
     Inr (t + int (length (filter regular es)), fe @ filter regular es, n,
          lg @ map (\<lambda>f. LogStatError (filepath_Join folder (fname f))) (filter regular es))"
  using assms by (induction es arbitrary: t fe lg) (simp_all add: Let_def)

section \<open>The counts, for any file system\<close>

lemma scanEntries_count:
  "scanEntries fs folder es (t, fe, n, lg) = Inr (t', fe', n', lg') \<Longrightarrow>
   t' = t + int (length (filter regular es)) \<and> fe' = fe @ filter regular es \<and>
   filter isRemoved lg' = filter isRemoved lg"
proof (induction es arbitrary: t fe n lg)
  case Nil
  then show ?case by simp
next
  case (Cons e es)
  show ?case
  proof (cases "regular e")
    case False
    with Cons show ?thesis by simp
  next
    case True
    show ?thesis
    proof (cases "times_Stat fs (filepath_Join folder (fname e))")
      case None
      with True Cons.prems
      have "scanEntries fs folder es
              (t + 1, fe @ [e], n, lg @ [LogStatError (filepath_Join folder (fname e))])
            = Inr (t', fe', n', lg')"
        by (simp add: Let_def)
      from Cons.IH[OF this] True show ?thesis by (simp add: isRemoved_def)
    next
      case (Some mb)
      obtain m bo where mb: "mb = (m, bo)" by (cases mb)
      show ?thesis
      proof (cases bo)
        case None
        with Some mb True Cons.prems show ?thesis by (simp add: Let_def)
      next
        case (Some b)
        with \<open>times_Stat fs (filepath_Join folder (fname e)) = Some mb\<close> mb True Cons.prems
        have "scanEntries fs folder es
              (t + 1, fe @ [e],
               (if After (if After b m then b else m) n then (if After b m then b else m) else n),
               lg) = Inr (t', fe', n', lg')"
          by (simp add: Let_def)
        from Cons.IH[OF this] True show ?thesis by simp
      qed
    qed
  qed
qed

lemma deleteOld_count:
  "deleteOld folder c entries (fs, k, lg) = Inr (fs', k', lg') \<Longrightarrow>
   k \<le> k' \<and> k' \<le> k + int (length entries) \<and>
   k' - int (length (filter isRemoved lg')) = k - int (length (filter isRemoved lg))"
proof (induction entries arbitrary: fs k lg)
  case Nil
  then show ?case by simp
next
  case (Cons e entries)
  from Cons.prems obtain fs1 k1 lg1 where
    step: "deleteOld folder c entries (fs1, k1, lg1) = Inr (fs', k', lg')"
    and k1: "k \<le> k1" "k1 \<le> k + 1"
    and r: "k1 - int (length (filter isRemoved lg1)) = k - int (length (filter isRemoved lg))"
    by (auto simp: Let_def isRemoved_def split: option.splits if_splits)
  from Cons.IH[OF step] k1 r show ?case by simp
qed

lemma processFolder_bounds:
  assumes "processFolder loc fs folder days = Inr ((seen, deleted, err), fs', lg)"
  shows "0 \<le> deleted \<and> deleted \<le> seen \<and> deleted = int (length (filter isRemoved lg))"
proof (cases "os_ReadDir fs folder")
  case None
  with assms show ?thesis by (auto simp: processFolder_def)
next
  case (Some es)
  from assms Some obtain t fe n l where
    sc: "scanEntries fs folder es (0, [], zeroTime, []) = Inr (t, fe, n, l)"
    by (auto simp: processFolder_def split: sum.splits)
  from scanEntries_count[OF sc] have t: "t = int (length (filter regular es))"
    and fe: "fe = filter regular es" and l: "filter isRemoved l = []" by simp_all
  show ?thesis
  proof (cases "IsZero n")
    case True
    with assms Some sc t l show ?thesis by (auto simp: processFolder_def isRemoved_def)
  next
    case False
    let ?c = "AddDate_days loc n (- days)"
    from assms Some sc False obtain fs1 d1 l1 where
      del: "deleteOld folder ?c fe (fs, 0, l @ [LogCutoff folder n ?c]) = Inr (fs1, d1, l1)"
      and res: "seen = t" "deleted = d1" "lg = l1"
      by (auto simp: processFolder_def Let_def split: sum.splits)
    from deleteOld_count[OF del] l
    have "0 \<le> d1" "d1 \<le> int (length fe)" "d1 = int (length (filter isRemoved l1))"
      by (simp_all add: isRemoved_def)
    then show ?thesis using res t fe by simp
  qed
qed

section \<open>Adding days to a time\<close>

text \<open>
  \<open>AddDate\<close> adds the days to the seconds, together with the difference of two zone
  offsets, and wraps once. So it goes back in time when the days are few enough not to
  wrap and the offsets of the zone differ by a day at most, and it subtracts 24 hours
  for each day in a zone with a fixed offset.
\<close>

lemma wrap64_id: "- (2 ^ 63) \<le> x \<Longrightarrow> x < 2 ^ 63 \<Longrightarrow> wrap64 x = x"
  by (simp add: wrap64_def)

lemma wrap64_cong: "x mod 2 ^ 64 = y mod 2 ^ 64 \<Longrightarrow> wrap64 x = wrap64 y"
  unfolding wrap64_def by (metis mod_add_left_eq)

lemma wrap64_mod: "wrap64 x mod 2 ^ 64 = x mod 2 ^ 64"
proof -
  have "wrap64 x mod 2 ^ 64 = ((x + 2 ^ 63) mod 2 ^ 64 - 2 ^ 63) mod 2 ^ 64"
    by (simp add: wrap64_def)
  also have "\<dots> = ((x + 2 ^ 63) - 2 ^ 63) mod 2 ^ 64"
    by (rule mod_diff_left_eq)
  finally show ?thesis by simp
qed

lemma wrap64_add_left: "wrap64 (wrap64 a + b) = wrap64 (a + b)"
  by (rule wrap64_cong) (metis mod_add_left_eq wrap64_mod)

lemma wrap64_diff_left: "wrap64 (wrap64 a - b) = wrap64 (a - b)"
  by (rule wrap64_cong) (metis mod_diff_left_eq wrap64_mod)

lemma wrap64_add_mult: "wrap64 (a + wrap64 b * k) = wrap64 (a + b * k)"
  by (rule wrap64_cong) (metis mod_add_right_eq mod_mult_left_eq wrap64_mod)

lemma AddDate_days_form:
  "\<exists>a b. AddDate_days loc t days =
     wrap64 (t div 1000000000 + zoneOffset (loc a) - zoneOffset (loc b) + days * secondsPerDay)
       * 1000000000 + t mod 1000000000"
proof -
  let ?u = "wrap64 (t div 1000000000 - unixToInternal)"
  let ?l = "wrap64 (?u + zoneOffset (loc ?u))"
  let ?x = "wrap64 (?l + wrap64 days * secondsPerDay)"
  let ?utc = "wrap64 (?x - zoneOffset (loc ?x))"
  have x: "?x = wrap64 (t div 1000000000 - unixToInternal + zoneOffset (loc ?u) + days * secondsPerDay)"
    by (simp add: wrap64_add_mult wrap64_add_left)
  have fin: "wrap64 (wrap64 (?x - k) + unixToInternal) =
      wrap64 (t div 1000000000 + zoneOffset (loc ?u) - k + days * secondsPerDay)" for k
  proof -
    have "wrap64 (wrap64 (?x - k) + unixToInternal) = wrap64 (?x - k + unixToInternal)"
      by (rule wrap64_add_left)
    also have "\<dots> = wrap64 (?x + (unixToInternal - k))" by (simp add: algebra_simps)
    also have "\<dots> = wrap64 (t div 1000000000 - unixToInternal + zoneOffset (loc ?u)
          + days * secondsPerDay + (unixToInternal - k))"
      unfolding x by (rule wrap64_add_left)
    also have "\<dots> = wrap64 (t div 1000000000 + zoneOffset (loc ?u) - k + days * secondsPerDay)"
      by (simp add: algebra_simps)
    finally show ?thesis .
  qed
  have fin0: "zoneOffset (loc ?x) = 0 \<Longrightarrow> wrap64 (?x + unixToInternal) =
      wrap64 (t div 1000000000 + zoneOffset (loc ?u) - zoneOffset (loc ?x) + days * secondsPerDay)"
  proof -
    assume z: "zoneOffset (loc ?x) = 0"
    have "wrap64 (?x + unixToInternal) = wrap64 (t div 1000000000 - unixToInternal
        + zoneOffset (loc ?u) + days * secondsPerDay + unixToInternal)"
      unfolding x by (rule wrap64_add_left)
    then show ?thesis using z by (simp add: algebra_simps)
  qed
  consider (zero) "zoneOffset (loc ?x) = 0"
    | (out) "zoneOffset (loc ?x) \<noteq> 0" "?utc < zoneStart (loc ?x) \<or> ?utc \<ge> zoneEnd (loc ?x)"
    | (inside) "zoneOffset (loc ?x) \<noteq> 0" "\<not> (?utc < zoneStart (loc ?x) \<or> ?utc \<ge> zoneEnd (loc ?x))"
    by blast
  then show ?thesis
  proof cases
    case zero
    then have "AddDate_days loc t days = wrap64 (?x + unixToInternal) * 1000000000 + t mod 1000000000"
      by (simp add: AddDate_days_def Let_def)
    with fin0[OF zero] show ?thesis by metis
  next
    case out
    then have "AddDate_days loc t days =
        wrap64 (wrap64 (?x - zoneOffset (loc ?utc)) + unixToInternal) * 1000000000
          + t mod 1000000000"
      by (simp add: AddDate_days_def Let_def)
    with fin[of "zoneOffset (loc ?utc)"] show ?thesis by metis
  next
    case inside
    then have "AddDate_days loc t days =
        wrap64 (wrap64 (?x - zoneOffset (loc ?x)) + unixToInternal) * 1000000000
          + t mod 1000000000"
      by (simp add: AddDate_days_def Let_def)
    with fin[of "zoneOffset (loc ?x)"] show ?thesis by metis
  qed
qed


lemma AddDate_days_fixed:
  assumes fixed: "\<forall>a. zoneOffset (loc a) = k"
    and r: "- (2 ^ 63) \<le> t div 1000000000 - days * 86400" "t div 1000000000 - days * 86400 < 2 ^ 63"
  shows "AddDate_days loc t (- days) = t - days * nsPerDay"
proof -
  obtain a b where f: "AddDate_days loc t (- days) =
     wrap64 (t div 1000000000 + zoneOffset (loc a) - zoneOffset (loc b) + (- days) * secondsPerDay)
       * 1000000000 + t mod 1000000000"
    using AddDate_days_form[of loc t "- days"] by blast
  have "t div 1000000000 + zoneOffset (loc a) - zoneOffset (loc b) + (- days) * secondsPerDay
      = t div 1000000000 - days * 86400"
    using fixed by (simp add: secondsPerDay_def)
  then have "AddDate_days loc t (- days) =
      (t div 1000000000 - days * 86400) * 1000000000 + t mod 1000000000"
    using f r by (simp add: wrap64_id)
  also have "\<dots> = (t div 1000000000) * 1000000000 + t mod 1000000000 - days * nsPerDay"
    by (simp add: nsPerDay_def algebra_simps)
  also have "\<dots> = t - days * nsPerDay" by simp
  finally show ?thesis .
qed

section \<open>Errors of single files and of folders\<close>
















lemma main_ignores_clock:
  assumes "main x help args now fs0 = Completed fs1 t d lg1 s"
  shows "\<exists>s'. main x help args now' fs0 = Completed fs1 t d lg1 s'"
  using assms
  by (auto simp: main_def writeLog_def split: if_splits sum.splits prod.splits)

section \<open>Configuration\<close>

lemmas string_defs = Atoi_def isNumber_def isDigit_def TrimSpace_def TrimLeftSpace_def
  leadingSpace_def trailingSpace_def spaceRunes_def

lemmas config_defs = loadConfig_def argsConfig_def parseEnvConfig_def mergeConfigs_def
  readYAMLConfig_def emptyConfig_def samplePlatform_def

lemma mergeConfigs_eq:
  "mergeConfigs c e =
     \<lparr>Days = (if Days c = 0 then Days e else Days c),
      Folders = (if Folders c = [] then Folders e else Folders c)\<rparr>"
  by (simp add: mergeConfigs_def Let_def)

lemma Atoi_Nil: "Atoi [] = None"
  by (simp add: Atoi_def)

lemma parseEnvConfig_numeric:
  assumes "Getenv x ''DAYS'' = [] \<or> Atoi (Getenv x ''DAYS'') \<noteq> None"
  shows "parseEnvConfig x = (\<lparr>Days = envDays x, Folders = envFolders x\<rparr>, None)"
proof (cases "Getenv x ''DAYS'' = []")
  case True
  then show ?thesis
    by (simp add: parseEnvConfig_def envDays_def envFolders_def emptyConfig_def Atoi_Nil)
next
  case False
  with assms obtain d where "Atoi (Getenv x ''DAYS'') = Some d" by auto
  with False show ?thesis
    by (simp add: parseEnvConfig_def envDays_def envFolders_def emptyConfig_def)
qed

lemma args_override:
  "loadConfig x [''7'', ''/backup''] = Inr \<lparr>Days = 7, Folders = [''/backup'']\<rparr>"
  by (simp add: loadConfig_def argsConfig_def mergeConfigs_eq string_defs)

section \<open>The sample runs\<close>

lemmas eval_defs = processFolder_def os_ReadDir_def times_Stat_def fileAt_def os_Remove_def
  After_def Before_def IsZero_def zeroTime_def nsPerDay_def
  filepath_Join_def Clean_def splitPath_def

lemmas date_defs = AddDate_days_def wrap64_def secondsPerDay_def unixToInternal_def
  zoneOffset_def zoneStart_def zoneEnd_def utcLoc_def nsPerDay_def Let_def

lemma utc_week: "AddDate_days utcLoc (100 * nsPerDay) (- 7) = 93 * nsPerDay"
  by (simp add: date_defs)

lemma utc_wrap: "AddDate_days utcLoc (100 * nsPerDay) (- 9223372036854775807) = 101 * nsPerDay"
  by (simp add: date_defs)

lemma summer_week: "AddDate_days summerLoc (100 * nsPerDay) (- 7) = 93 * nsPerDay + 3600000000000"
  by code_simp

lemma sampleFs_dirs:
  "dirAt sampleFs ''/data'' = Dir True 11" "dirAt sampleFs ''/backup'' = Dir True 12"
  "dirAt sampleFs ''/ghosts'' = Dir True 13" "dirAt sampleFs ''/srv'' = Dir True 14"
  "dirAt sampleFs ''/srv/link/..'' = Dir True 12" "dirAt sampleFs ''/nobirth'' = Dir True 15"
  "dirAt sampleFs ''/locked'' = Dir False 16" "dirAt sampleFs ''/etc/passwd'' = NotDir"
  "dirAt sampleFs ''/nowhere'' = NoEntry"
  by (simp_all add: sampleFs_def)

lemma sampleFs_content:
  "content sampleFs 11 = sampleEntries" "content sampleFs 12 = backupEntries"
  "content sampleFs 13 = [\<lparr>fname = ''ghost.log'', regular = True, stat = None, removable = True\<rparr>]"
  "content sampleFs 14 = srvEntries"
  "content sampleFs 15 = [\<lparr>fname = ''old.log'', regular = True,
                          stat = Some (10 * nsPerDay, None), removable = True\<rparr>]"
  by (simp_all add: sampleFs_def)

lemma sample_run:
  "processFolder utcLoc sampleFs ''/data'' 7 =
     Inr ((5, 1, None),
      sampleFs\<lparr>content := (content sampleFs)(11 :=
        [\<lparr>fname = ''fresh.log'', regular = True,
           stat = Some (100 * nsPerDay, Some (99 * nsPerDay)), removable = True\<rparr>,
         \<lparr>fname = ''locked.log'', regular = True,
           stat = Some (10 * nsPerDay, Some (9 * nsPerDay)), removable = False\<rparr>,
         \<lparr>fname = ''ghost.log'', regular = True, stat = None, removable = True\<rparr>,
         \<lparr>fname = ''edge.log'', regular = True,
           stat = Some (93 * nsPerDay, Some (9 * nsPerDay)), removable = True\<rparr>,
         \<lparr>fname = ''sub'', regular = False, stat = Some (1, Some 1), removable = True\<rparr>])\<rparr>,
      [LogStatError ''/data/ghost.log'',
       LogCutoff ''/data'' (100 * nsPerDay) (93 * nsPerDay),
       LogRemoved ''/data/stale.log'',
       LogRemoveError ''/data/locked.log'',
       LogStatError ''/data/ghost.log''])"
proof -
  have c: "AddDate_days utcLoc 8640000000000000 (- 7) = 8035200000000000"
    using utc_week by (simp add: nsPerDay_def)
  show ?thesis
    by (simp add: eval_defs sampleFs_dirs sampleFs_content sampleEntries_def c)
qed

lemma backup_run:
  "processFolder utcLoc sampleFs ''/backup'' 7 =
     Inr ((2, 1, None),
      sampleFs\<lparr>content := (content sampleFs)(12 :=
        [\<lparr>fname = ''fresh.log'', regular = True,
           stat = Some (100 * nsPerDay, Some (99 * nsPerDay)), removable = True\<rparr>,
         \<lparr>fname = ''sub'', regular = False, stat = Some (1, Some 1), removable = True\<rparr>])\<rparr>,
      [LogCutoff ''/backup'' (100 * nsPerDay) (93 * nsPerDay),
       LogRemoved ''/backup/stale.log''])"
proof -
  have c: "AddDate_days utcLoc 8640000000000000 (- 7) = 8035200000000000"
    using utc_week by (simp add: nsPerDay_def)
  show ?thesis
    by (simp add: eval_defs sampleFs_dirs sampleFs_content backupEntries_def c)
qed

lemma backup_forever_run:
  "processFolder utcLoc sampleFs ''/backup'' 9223372036854775807 =
     Inr ((2, 2, None),
      sampleFs\<lparr>content := (content sampleFs)(12 :=
        [\<lparr>fname = ''sub'', regular = False, stat = Some (1, Some 1), removable = True\<rparr>])\<rparr>,
      [LogCutoff ''/backup'' (100 * nsPerDay) (101 * nsPerDay),
       LogRemoved ''/backup/fresh.log'',
       LogRemoved ''/backup/stale.log''])"
proof -
  have c: "AddDate_days utcLoc 8640000000000000 (- 9223372036854775807) = 8726400000000000"
    using utc_wrap by (simp add: nsPerDay_def)
  show ?thesis
    by (simp add: eval_defs sampleFs_dirs sampleFs_content backupEntries_def c)
qed

lemma link_run:
  "processFolder utcLoc sampleFs ''/srv/link/..'' 7 =
     Inr ((2, 1, None),
      sampleFs\<lparr>content := (content sampleFs)(14 :=
        [\<lparr>fname = ''fresh.log'', regular = True,
           stat = Some (100 * nsPerDay, Some (99 * nsPerDay)), removable = True\<rparr>,
         \<lparr>fname = ''link'', regular = False, stat = Some (1, Some 1), removable = True\<rparr>])\<rparr>,
      [LogCutoff ''/srv/link/..'' (100 * nsPerDay) (93 * nsPerDay),
       LogRemoved ''/srv/stale.log''])"
proof -
  have c: "AddDate_days utcLoc 8640000000000000 (- 7) = 8035200000000000"
    using utc_week by (simp add: nsPerDay_def)
  show ?thesis
    by (simp add: eval_defs sampleFs_dirs sampleFs_content backupEntries_def srvEntries_def c)
qed

lemma nobirth_run:
  "processFolder utcLoc sampleFs ''/nobirth'' 7 = Inl (sampleFs, [])"
  by (simp add: eval_defs sampleFs_dirs sampleFs_content)

lemma ghosts_run:
  "processFolder loc sampleFs ''/ghosts'' 7 =
     Inr ((1, 0, None), sampleFs, [LogStatError ''/ghosts/ghost.log'', LogNoFiles ''/ghosts''])"
  by (simp add: eval_defs sampleFs_dirs sampleFs_content)

lemma data_ready:
  "distinct (map fname (content sampleFs 11))"
  "\<forall>g\<in>set (content sampleFs 11). regular g \<longrightarrow> joinsInto sampleFs ''/data'' 11 (fname g)"
  by (simp_all add: sampleFs_content sampleEntries_def joinsInto_def filepath_Join_def
      Clean_def splitPath_def sampleFs_dirs)

lemma data_births:
  "\<forall>g\<in>set (content sampleFs 11). regular g \<longrightarrow> (\<forall>m. stat g \<noteq> Some (m, None))"
  by (simp add: sampleFs_content sampleEntries_def)

lemma backup_ready:
  "distinct (map fname (content sampleFs 12))"
  "\<forall>g\<in>set (content sampleFs 12). regular g \<longrightarrow> joinsInto sampleFs ''/backup'' 12 (fname g)"
  by (simp_all add: sampleFs_content backupEntries_def joinsInto_def filepath_Join_def
      Clean_def splitPath_def sampleFs_dirs)

lemma backup_births:
  "\<forall>g\<in>set (content sampleFs 12). regular g \<longrightarrow> (\<forall>m. stat g \<noteq> Some (m, None))"
  by (simp add: sampleFs_content backupEntries_def)






lemma backup_main_run:
  "main (samplePlatform dys fld) False [''7'', ''/backup''] now sampleFs =
       Completed
         (sampleFs\<lparr>content := (content sampleFs)(12 :=
            [\<lparr>fname = ''fresh.log'', regular = True,
               stat = Some (100 * nsPerDay, Some (99 * nsPerDay)), removable = True\<rparr>,
             \<lparr>fname = ''sub'', regular = False, stat = Some (1, Some 1), removable = True\<rparr>])\<rparr>)
         2 1
         [LogCutoff ''/backup'' (100 * nsPerDay) (93 * nsPerDay),
          LogRemoved ''/backup/stale.log'', LogWritten]
         (Some (now, 2, 1))"
proof -
  have t: "TrimSpace ''/backup'' = ''/backup''" by (simp add: string_defs)
  have w: "writeLog (samplePlatform dys fld) ts n k = Some (ts, n, k)" for ts n k
    by (simp add: writeLog_def samplePlatform_def)
  have l: "Local (samplePlatform dys fld) = utcLoc" by (simp add: samplePlatform_def)
  show ?thesis
    by (simp add: main_def args_override t os_Stat_IsDir_def sampleFs_dirs backup_run w l Let_def)
qed

text \<open>
  A file without a birth time ends the whole run: \<open>/data\<close>, which comes after
  \<open>/nobirth\<close>, is not cleaned.
\<close>

lemma nobirth_main_run:
  "main (samplePlatform [] []) False [''7'', ''/nobirth'', ''/data''] now sampleFs =
     Panicked sampleFs []"
proof -
  have c: "loadConfig (samplePlatform [] []) [''7'', ''/nobirth'', ''/data'']
      = Inr \<lparr>Days = 7, Folders = [''/nobirth'', ''/data'']\<rparr>"
    by (simp add: config_defs string_defs)
  have t: "TrimSpace ''/nobirth'' = ''/nobirth''" by (simp add: string_defs)
  have l: "Local (samplePlatform [] []) = utcLoc" by (simp add: samplePlatform_def)
  show ?thesis
    by (simp add: main_def c t l os_Stat_IsDir_def sampleFs_dirs nobirth_run Let_def)
qed

section \<open>Which files are deleted\<close>

text \<open>
  C1, as the code has it. Take a folder that can be listed, whose entries have
  distinct names, where the path \<open>filepath.Join(folder, name)\<close> built for each
  regular entry names that entry, and where every regular file whose time stamps can
  be read has a birth time. Then \<open>processFolder\<close> returns; a cutoff is computed and
  logged exactly when some regular file has a readable time stamp after the zero Time;
  and for each regular file \<open>f\<close> of the folder: once a cutoff has been logged, \<open>f\<close>
  is gone afterwards exactly when its time stamps can be read, both are strictly
  before the cutoff and \<open>os.Remove\<close> succeeds on it; otherwise it is still there, so
  a file with a time stamp equal to or after the cutoff is kept. When no cutoff is
  logged, \<open>f\<close> is kept.
\<close>

theorem deleted_iff_old_and_removable:
  assumes "dirAt fs folder = Dir True d" and "distinct (map fname (content fs d))"
    and "\<forall>g\<in>set (content fs d). regular g \<longrightarrow> joinsInto fs folder d (fname g)"
    and "\<forall>g\<in>set (content fs d). regular g \<longrightarrow> (\<forall>m. stat g \<noteq> Some (m, None))"
    and "f \<in> set (content fs d)" and "regular f"
  shows "\<exists>r fs' lg. processFolder loc fs folder days = Inr (r, fs', lg) \<and>
         ((\<exists>n cutoff. LogCutoff folder n cutoff \<in> set lg) \<longleftrightarrow>
            (\<exists>t\<in>set (stamps (content fs d)). After t zeroTime)) \<and>
         (\<forall>n cutoff. LogCutoff folder n cutoff \<in> set lg \<longrightarrow>
            entryOf fs' d (fname f) =
              (if \<exists>m b. stat f = Some (m, Some b) \<and> Before m cutoff \<and> Before b cutoff
                        \<and> removable f
               then None else Some f))
       \<and> ((\<forall>n cutoff. LogCutoff folder n cutoff \<notin> set lg) \<longrightarrow>
            entryOf fs' d (fname f) = Some f)"
proof -
  have "\<exists>res. processFolder loc fs folder days = Inr res"
    unfolding processFolder_closed[of fs folder d loc days, OF assms(1,2,3,4)] by simp
  then obtain res where "processFolder loc fs folder days = Inr res" ..
  then obtain r fs' lg where run: "processFolder loc fs folder days = Inr (r, fs', lg)"
    by (cases res) auto
  have "(\<forall>n cutoff. LogCutoff folder n cutoff \<in> set lg \<longrightarrow>
            entryOf fs' d (fname f) =
              (if \<exists>m b. stat f = Some (m, Some b) \<and> Before m cutoff \<and> Before b cutoff
                        \<and> removable f
               then None else Some f))
       \<and> ((\<forall>n cutoff. LogCutoff folder n cutoff \<notin> set lg) \<longrightarrow>
            entryOf fs' d (fname f) = Some f)"
  proof (cases "fold max (stamps (content fs d)) zeroTime = zeroTime")
    case True
    from processFolder_facts(1)[OF assms(1,2,3) run True]
    have "fs' = fs" and "\<forall>n c. LogCutoff folder n c \<notin> set lg" by blast+
    then show ?thesis using assms(2,5) by (simp add: entryOf_listed)
  next
    case False
    let ?c = "AddDate_days loc (fold max (stamps (content fs d)) zeroTime) (- days)"
    from processFolder_facts(2)[OF assms(1,2,3) run False]
    have fs': "fs' = fs\<lparr>content := (content fs)
          (d := filter (\<lambda>g. \<not> (regular g \<and> doomed ?c g)) (content fs d))\<rparr>"
      and cut: "\<And>n c. LogCutoff folder n c \<in> set lg \<longleftrightarrow>
                 n = fold max (stamps (content fs d)) zeroTime \<and> c = AddDate_days loc n (- days)"
      by blast+
    have "entryOf fs' d (fname f) = (if doomed ?c f then None else Some f)"
      unfolding fs' using entryOf_filter[OF assms(2,5)] assms(6) by simp
    moreover have "doomed ?c f \<longleftrightarrow>
        (\<exists>m b. stat f = Some (m, Some b) \<and> Before m ?c \<and> Before b ?c \<and> removable f)"
      by (auto simp: doomed_def split: option.splits)
    ultimately have "entryOf fs' d (fname f) =
        (if \<exists>m b. stat f = Some (m, Some b) \<and> Before m ?c \<and> Before b ?c \<and> removable f
         then None else Some f)" by simp
    then show ?thesis using cut by auto
  qed
  moreover note cutoff_logged_iff[OF assms(1,2,3) run]
  ultimately show ?thesis using run by blast
qed

text \<open>
  C1 as stated fails twice. In \<open>/data\<close> both time stamps of \<open>locked.log\<close> are
  before the cutoff, but \<open>os.Remove\<close> fails on it and it is kept. And the folder
  \<open>/srv/link/..\<close> names directory 12, but the path built for its entry
  \<open>stale.log\<close> is \<open>/srv/stale.log\<close>: the run removes that file of directory 14,
  and the listed file, with both time stamps before the cutoff, stays in directory 12.
\<close>

theorem deleted_iff_counterexample:
  "processFolder utcLoc sampleFs ''/data'' 7 =
     Inr ((5, 1, None),
      sampleFs\<lparr>content := (content sampleFs)(11 :=
        [\<lparr>fname = ''fresh.log'', regular = True,
           stat = Some (100 * nsPerDay, Some (99 * nsPerDay)), removable = True\<rparr>,
         \<lparr>fname = ''locked.log'', regular = True,
           stat = Some (10 * nsPerDay, Some (9 * nsPerDay)), removable = False\<rparr>,
         \<lparr>fname = ''ghost.log'', regular = True, stat = None, removable = True\<rparr>,
         \<lparr>fname = ''edge.log'', regular = True,
           stat = Some (93 * nsPerDay, Some (9 * nsPerDay)), removable = True\<rparr>,
         \<lparr>fname = ''sub'', regular = False, stat = Some (1, Some 1), removable = True\<rparr>])\<rparr>,
      [LogStatError ''/data/ghost.log'',
       LogCutoff ''/data'' (100 * nsPerDay) (93 * nsPerDay),
       LogRemoved ''/data/stale.log'',
       LogRemoveError ''/data/locked.log'',
       LogStatError ''/data/ghost.log''])
   \<and> Before (10 * nsPerDay) (93 * nsPerDay) \<and> Before (9 * nsPerDay) (93 * nsPerDay)
   \<and> processFolder utcLoc sampleFs ''/srv/link/..'' 7 =
     Inr ((2, 1, None),
      sampleFs\<lparr>content := (content sampleFs)(14 :=
        [\<lparr>fname = ''fresh.log'', regular = True,
           stat = Some (100 * nsPerDay, Some (99 * nsPerDay)), removable = True\<rparr>,
         \<lparr>fname = ''link'', regular = False, stat = Some (1, Some 1), removable = True\<rparr>])\<rparr>,
      [LogCutoff ''/srv/link/..'' (100 * nsPerDay) (93 * nsPerDay),
       LogRemoved ''/srv/stale.log''])
   \<and> dirAt sampleFs ''/srv/link/..'' = Dir True 12
   \<and> content sampleFs 12 = backupEntries"
  by (simp add: sample_run link_run sampleFs_dirs sampleFs_content Before_def nsPerDay_def)

text \<open>
  In \<open>/data\<close>, cleaned with a window of seven days, \<open>stale.log\<close> is gone and
  \<open>edge.log\<close>, whose modification time equals the cutoff, is kept.
\<close>

theorem deleted_iff_old_and_removable_witness:
  "entryOf (sampleFs\<lparr>content := (content sampleFs)(11 :=
        [\<lparr>fname = ''fresh.log'', regular = True,
           stat = Some (100 * nsPerDay, Some (99 * nsPerDay)), removable = True\<rparr>,
         \<lparr>fname = ''locked.log'', regular = True,
           stat = Some (10 * nsPerDay, Some (9 * nsPerDay)), removable = False\<rparr>,
         \<lparr>fname = ''ghost.log'', regular = True, stat = None, removable = True\<rparr>,
         \<lparr>fname = ''edge.log'', regular = True,
           stat = Some (93 * nsPerDay, Some (9 * nsPerDay)), removable = True\<rparr>,
         \<lparr>fname = ''sub'', regular = False, stat = Some (1, Some 1), removable = True\<rparr>])\<rparr>)
      11 ''stale.log'' = None
   \<and> entryOf (sampleFs\<lparr>content := (content sampleFs)(11 :=
        [\<lparr>fname = ''fresh.log'', regular = True,
           stat = Some (100 * nsPerDay, Some (99 * nsPerDay)), removable = True\<rparr>,
         \<lparr>fname = ''locked.log'', regular = True,
           stat = Some (10 * nsPerDay, Some (9 * nsPerDay)), removable = False\<rparr>,
         \<lparr>fname = ''ghost.log'', regular = True, stat = None, removable = True\<rparr>,
         \<lparr>fname = ''edge.log'', regular = True,
           stat = Some (93 * nsPerDay, Some (9 * nsPerDay)), removable = True\<rparr>,
         \<lparr>fname = ''sub'', regular = False, stat = Some (1, Some 1), removable = True\<rparr>])\<rparr>)
      11 ''edge.log'' =
       Some \<lparr>fname = ''edge.log'', regular = True,
              stat = Some (93 * nsPerDay, Some (9 * nsPerDay)), removable = True\<rparr>"
proof -
  let ?stale = "\<lparr>fname = ''stale.log'', regular = True,
        stat = Some (10 * nsPerDay, Some (9 * nsPerDay)), removable = True\<rparr>"
  let ?edge = "\<lparr>fname = ''edge.log'', regular = True,
        stat = Some (93 * nsPerDay, Some (9 * nsPerDay)), removable = True\<rparr>"
  have s: "?stale \<in> set (content sampleFs 11)" "regular ?stale"
    by (simp_all add: sampleFs_content sampleEntries_def)
  have e: "?edge \<in> set (content sampleFs 11)" "regular ?edge"
    by (simp_all add: sampleFs_content sampleEntries_def)
  have c: "LogCutoff ''/data'' (100 * nsPerDay) (93 * nsPerDay) \<in> set
      [LogStatError ''/data/ghost.log'',
       LogCutoff ''/data'' (100 * nsPerDay) (93 * nsPerDay),
       LogRemoved ''/data/stale.log'',
       LogRemoveError ''/data/locked.log'',
       LogStatError ''/data/ghost.log'']" by simp
  let ?fs' = "sampleFs\<lparr>content := (content sampleFs)(11 :=
        [\<lparr>fname = ''fresh.log'', regular = True,
           stat = Some (100 * nsPerDay, Some (99 * nsPerDay)), removable = True\<rparr>,
         \<lparr>fname = ''locked.log'', regular = True,
           stat = Some (10 * nsPerDay, Some (9 * nsPerDay)), removable = False\<rparr>,
         \<lparr>fname = ''ghost.log'', regular = True, stat = None, removable = True\<rparr>,
         \<lparr>fname = ''edge.log'', regular = True,
           stat = Some (93 * nsPerDay, Some (9 * nsPerDay)), removable = True\<rparr>,
         \<lparr>fname = ''sub'', regular = False, stat = Some (1, Some 1), removable = True\<rparr>])\<rparr>"
  let ?lg = "[LogStatError ''/data/ghost.log'',
       LogCutoff ''/data'' (100 * nsPerDay) (93 * nsPerDay),
       LogRemoved ''/data/stale.log'',
       LogRemoveError ''/data/locked.log'',
       LogStatError ''/data/ghost.log'']"
  from deleted_iff_old_and_removable[OF sampleFs_dirs(1) data_ready data_births s, of utcLoc 7]
  have "\<forall>n cutoff. LogCutoff ''/data'' n cutoff \<in> set ?lg \<longrightarrow>
            entryOf ?fs' 11 (fname ?stale) =
              (if \<exists>m b. stat ?stale = Some (m, Some b) \<and> Before m cutoff \<and> Before b cutoff
                        \<and> removable ?stale
               then None else Some ?stale)"
    unfolding sample_run by blast
  with c have 1: "entryOf ?fs' 11 ''stale.log'' = None"
    by (auto simp: Before_def nsPerDay_def)
  from deleted_iff_old_and_removable[OF sampleFs_dirs(1) data_ready data_births e, of utcLoc 7]
  have "\<forall>n cutoff. LogCutoff ''/data'' n cutoff \<in> set ?lg \<longrightarrow>
            entryOf ?fs' 11 (fname ?edge) =
              (if \<exists>m b. stat ?edge = Some (m, Some b) \<and> Before m cutoff \<and> Before b cutoff
                        \<and> removable ?edge
               then None else Some ?edge)"
    unfolding sample_run by blast
  with c have 2: "entryOf ?fs' 11 ''edge.log'' = Some ?edge"
    by (auto simp: Before_def nsPerDay_def)
  from 1 2 show ?thesis by blast
qed

section \<open>The cutoff\<close>

text \<open>
  C2, as the code has it. Take a folder as for C1 (it can be listed, the names are
  distinct, each joined path names its entry, each readable regular file has a birth
  time). Then \<open>processFolder\<close> returns. If some regular file has a readable time
  stamp after the zero Time, exactly one cutoff is logged: newest is the maximum, over
  the regular files of the folder whose time stamps can be read, of the larger of
  modification time and birth time, and the cutoff is what \<open>AddDate(0, 0, -days)\<close>
  answers for newest in the local time zone. If there is no such file, no cutoff is
  computed and the folder is left as it was. In a zone with a fixed offset, and when
  the seconds of newest minus \<open>days\<close> times 86400 fit in 64 bits, that cutoff is
  newest minus \<open>days\<close> times 24 hours. The result of \<open>main\<close> does not depend on the
  wall-clock time, which is used for the line written to \<open>cleanup.log\<close> only.
\<close>

theorem cutoff_from_newest_readable:
  assumes "dirAt fs folder = Dir True d" and "distinct (map fname (content fs d))"
    and "\<forall>g\<in>set (content fs d). regular g \<longrightarrow> joinsInto fs folder d (fname g)"
    and "\<forall>g\<in>set (content fs d). regular g \<longrightarrow> (\<forall>m. stat g \<noteq> Some (m, None))"
  shows "(\<exists>r fs' lg. processFolder loc fs folder days = Inr (r, fs', lg) \<and>
           ((\<exists>t\<in>set (stamps (content fs d)). After t zeroTime) \<longrightarrow>
              (\<forall>n cutoff. LogCutoff folder n cutoff \<in> set lg \<longleftrightarrow>
                 n = Max (set (stamps (content fs d))) \<and>
                 cutoff = AddDate_days loc n (- days))) \<and>
           ((\<forall>t\<in>set (stamps (content fs d)). \<not> After t zeroTime) \<longrightarrow>
              (\<forall>n cutoff. LogCutoff folder n cutoff \<notin> set lg) \<and> fs' = fs))
       \<and> (\<forall>k n. (\<forall>a. zoneOffset (loc a) = k)
              \<and> - (2 ^ 63) \<le> n div 1000000000 - days * 86400
              \<and> n div 1000000000 - days * 86400 < 2 ^ 63 \<longrightarrow>
            AddDate_days loc n (- days) = n - days * nsPerDay)
       \<and> (\<forall>x help args now now' fs0 fs1 t k lg1 s.
            main x help args now fs0 = Completed fs1 t k lg1 s \<longrightarrow>
            (\<exists>s'. main x help args now' fs0 = Completed fs1 t k lg1 s'))"
proof -
  have "\<exists>res. processFolder loc fs folder days = Inr res"
    unfolding processFolder_closed[of fs folder d loc days, OF assms] by simp
  then obtain res where "processFolder loc fs folder days = Inr res" ..
  then obtain r fs' lg where run: "processFolder loc fs folder days = Inr (r, fs', lg)"
    by (cases res) auto
  have A: "(\<exists>t\<in>set (stamps (content fs d)). After t zeroTime) \<longrightarrow>
              (\<forall>n cutoff. LogCutoff folder n cutoff \<in> set lg \<longleftrightarrow>
                 n = Max (set (stamps (content fs d))) \<and>
                 cutoff = AddDate_days loc n (- days))"
  proof
    assume a: "\<exists>t\<in>set (stamps (content fs d)). After t zeroTime"
    note m = newest_is_Max[OF a]
    from processFolder_facts(2)[OF assms(1,2,3) run m(2)]
    have "\<forall>n c. LogCutoff folder n c \<in> set lg \<longleftrightarrow>
               n = fold max (stamps (content fs d)) zeroTime \<and>
               c = AddDate_days loc n (- days)" by blast
    then show "\<forall>n cutoff. LogCutoff folder n cutoff \<in> set lg \<longleftrightarrow>
                 n = Max (set (stamps (content fs d))) \<and>
                 cutoff = AddDate_days loc n (- days)"
      unfolding m(1) .
  qed
  have B: "(\<forall>t\<in>set (stamps (content fs d)). \<not> After t zeroTime) \<longrightarrow>
              (\<forall>n cutoff. LogCutoff folder n cutoff \<notin> set lg) \<and> fs' = fs"
  proof
    assume a: "\<forall>t\<in>set (stamps (content fs d)). \<not> After t zeroTime"
    from processFolder_facts(1)[OF assms(1,2,3) run newest_is_zero[OF a]]
    show "(\<forall>n cutoff. LogCutoff folder n cutoff \<notin> set lg) \<and> fs' = fs"
      by blast
  qed
  have C: "\<forall>k n. (\<forall>a. zoneOffset (loc a) = k)
              \<and> - (2 ^ 63) \<le> n div 1000000000 - days * 86400
              \<and> n div 1000000000 - days * 86400 < 2 ^ 63 \<longrightarrow>
            AddDate_days loc n (- days) = n - days * nsPerDay"
    using AddDate_days_fixed by blast
  have D: "\<forall>x help args now now' fs0 fs1 t k lg1 s.
            main x help args now fs0 = Completed fs1 t k lg1 s \<longrightarrow>
            (\<exists>s'. main x help args now' fs0 = Completed fs1 t k lg1 s')"
    using main_ignores_clock by blast
  from run A B have "\<exists>r fs' lg. processFolder loc fs folder days = Inr (r, fs', lg) \<and>
           ((\<exists>t\<in>set (stamps (content fs d)). After t zeroTime) \<longrightarrow>
              (\<forall>n cutoff. LogCutoff folder n cutoff \<in> set lg \<longleftrightarrow>
                 n = Max (set (stamps (content fs d))) \<and>
                 cutoff = AddDate_days loc n (- days))) \<and>
           ((\<forall>t\<in>set (stamps (content fs d)). \<not> After t zeroTime) \<longrightarrow>
              (\<forall>n cutoff. LogCutoff folder n cutoff \<notin> set lg) \<and> fs' = fs)"
    by blast
  then show ?thesis
    apply (intro conjI)
      apply assumption
     apply (rule C)
    apply (rule D)
    done
qed

text \<open>
  C2 as stated fails twice. The folder \<open>/ghosts\<close> is not empty, but the time stamps
  of its only file cannot be read: no cutoff is computed. And for \<open>/backup\<close> with
  9223372036854775807 days, which \<open>strconv.Atoi\<close> accepts, the multiplication by
  86400 wraps and the cutoff is newest plus one day, not newest minus the days: both
  files are deleted.
\<close>

theorem cutoff_counterexample:
  "processFolder utcLoc sampleFs ''/ghosts'' 7 =
     Inr ((1, 0, None), sampleFs,
          [LogStatError ''/ghosts/ghost.log'', LogNoFiles ''/ghosts''])
   \<and> processFolder utcLoc sampleFs ''/backup'' 9223372036854775807 =
     Inr ((2, 2, None),
      sampleFs\<lparr>content := (content sampleFs)(12 :=
        [\<lparr>fname = ''sub'', regular = False, stat = Some (1, Some 1), removable = True\<rparr>])\<rparr>,
      [LogCutoff ''/backup'' (100 * nsPerDay) (101 * nsPerDay),
       LogRemoved ''/backup/fresh.log'',
       LogRemoved ''/backup/stale.log''])"
  by (simp add: ghosts_run backup_forever_run)

text \<open>
  In a zone that moves its clocks forward by one hour on day 95, the cutoff for
  \<open>/backup\<close> with a window of seven days is newest minus 167 hours; \<open>/ghosts\<close> is
  left as it was and no cutoff is logged; in UTC seven days before day 100 is day 93;
  a run of \<open>main\<close> at another time gives the same file system, totals and log.
\<close>

theorem cutoff_from_newest_readable_witness:
  "(\<exists>r fs' lg. processFolder summerLoc sampleFs ''/backup'' 7 = Inr (r, fs', lg)
      \<and> LogCutoff ''/backup'' (100 * nsPerDay) (93 * nsPerDay + 3600000000000) \<in> set lg)
   \<and> (\<exists>r lg. processFolder utcLoc sampleFs ''/ghosts'' 7 = Inr (r, sampleFs, lg)
      \<and> (\<forall>n cutoff. LogCutoff ''/ghosts'' n cutoff \<notin> set lg))
   \<and> AddDate_days utcLoc (100 * nsPerDay) (- 7) = 100 * nsPerDay - 7 * nsPerDay
   \<and> (\<exists>s'. main (samplePlatform [] []) False [''7'', ''/backup''] 2000 sampleFs =
        Completed
         (sampleFs\<lparr>content := (content sampleFs)(12 :=
            [\<lparr>fname = ''fresh.log'', regular = True,
               stat = Some (100 * nsPerDay, Some (99 * nsPerDay)), removable = True\<rparr>,
             \<lparr>fname = ''sub'', regular = False, stat = Some (1, Some 1), removable = True\<rparr>])\<rparr>)
         2 1
         [LogCutoff ''/backup'' (100 * nsPerDay) (93 * nsPerDay),
          LogRemoved ''/backup/stale.log'', LogWritten]
         s')"
proof -
  have 4: "stamps (content sampleFs 12) = [100 * nsPerDay, 10 * nsPerDay]"
    by (simp add: stamps_def sampleFs_content backupEntries_def nsPerDay_def)
  have 5: "\<exists>t\<in>set (stamps (content sampleFs 12)). After t zeroTime"
    unfolding 4 by (simp add: After_def zeroTime_def nsPerDay_def)
  have 6: "Max (set (stamps (content sampleFs 12))) = 100 * nsPerDay"
    unfolding 4 by (simp add: nsPerDay_def)
  let ?g = "[\<lparr>fname = ''ghost.log'', regular = True, stat = None, removable = True\<rparr>]"
  have g: "distinct (map fname (content sampleFs 13))"
    "\<forall>g\<in>set (content sampleFs 13). regular g \<longrightarrow> joinsInto sampleFs ''/ghosts'' 13 (fname g)"
    "\<forall>g\<in>set (content sampleFs 13). regular g \<longrightarrow> (\<forall>m. stat g \<noteq> Some (m, None))"
    by (simp_all add: sampleFs_content joinsInto_def filepath_Join_def
      Clean_def splitPath_def sampleFs_dirs)
  have 10: "\<forall>t\<in>set (stamps (content sampleFs 13)). \<not> After t zeroTime"
    by (simp add: stamps_def sampleFs_content)
  have z: "\<forall>a. zoneOffset (utcLoc a) = 0" by (simp add: zoneOffset_def utcLoc_def)
  have r: "- (2 ^ 63) \<le> (100 * nsPerDay) div 1000000000 - 7 * 86400"
    "(100 * nsPerDay) div 1000000000 - 7 * 86400 < 2 ^ 63"
    by (simp_all add: nsPerDay_def)
  note A = cutoff_from_newest_readable[of sampleFs "''/backup''" 12 summerLoc 7,
      OF sampleFs_dirs(2) backup_ready backup_births]
  note B = cutoff_from_newest_readable[of sampleFs "''/ghosts''" 13 utcLoc 7,
      OF sampleFs_dirs(3) g]
  from A 5 have "\<exists>r fs' lg. processFolder summerLoc sampleFs ''/backup'' 7 = Inr (r, fs', lg)
      \<and> (\<forall>n cutoff. LogCutoff ''/backup'' n cutoff \<in> set lg \<longleftrightarrow>
            n = Max (set (stamps (content sampleFs 12))) \<and>
            cutoff = AddDate_days summerLoc n (- 7))"
    by blast
  then have a: "\<exists>r fs' lg. processFolder summerLoc sampleFs ''/backup'' 7 = Inr (r, fs', lg)
      \<and> LogCutoff ''/backup'' (100 * nsPerDay) (93 * nsPerDay + 3600000000000) \<in> set lg"
    unfolding 6 summer_week[symmetric] by blast
  from B 10 have b: "\<exists>r lg. processFolder utcLoc sampleFs ''/ghosts'' 7 = Inr (r, sampleFs, lg)
      \<and> (\<forall>n cutoff. LogCutoff ''/ghosts'' n cutoff \<notin> set lg)"
    by blast
  from B z r have c: "AddDate_days utcLoc (100 * nsPerDay) (- 7) = 100 * nsPerDay - 7 * nsPerDay"
    by blast
  from B backup_main_run[of "[]" "[]" 1000]
  have d: "\<exists>s'. main (samplePlatform [] []) False [''7'', ''/backup''] 2000 sampleFs =
        Completed
         (sampleFs\<lparr>content := (content sampleFs)(12 :=
            [\<lparr>fname = ''fresh.log'', regular = True,
               stat = Some (100 * nsPerDay, Some (99 * nsPerDay)), removable = True\<rparr>,
             \<lparr>fname = ''sub'', regular = False, stat = Some (1, Some 1), removable = True\<rparr>])\<rparr>)
         2 1
         [LogCutoff ''/backup'' (100 * nsPerDay) (93 * nsPerDay),
          LogRemoved ''/backup/stale.log'', LogWritten]
         s'"
    by blast
  from a b c d show ?thesis by blast
qed

section \<open>Precedence of the configuration sources\<close>

text \<open>
  C3, as the code has it, for an environment in which \<open>DAYS\<close> is not set or is a
  number. Without arguments the configuration is the one of the environment. With a
  numeric first argument, the days are that number unless it is 0 and the folders are
  the remaining arguments unless there are none; what is left unset (0 days, no
  folders) is taken from the environment, and no YAML file is read. With a single
  argument that is not a number the configuration is read from the YAML file of that
  name, and what it leaves unset is taken from the environment. So a numeric first
  argument other than 0 overrides the days of the environment, and folder arguments
  after a numeric first argument override \<open>FOLDERS\<close>.
\<close>

theorem config_precedence:
  assumes "Getenv x ''DAYS'' = [] \<or> Atoi (Getenv x ''DAYS'') \<noteq> None"
  shows "(args = [] \<longrightarrow>
            loadConfig x args = Inr \<lparr>Days = envDays x, Folders = envFolders x\<rparr>)
       \<and> (\<forall>a rest d. args = a # rest \<and> Atoi a = Some d \<longrightarrow>
            loadConfig x args =
              Inr \<lparr>Days = (if d = 0 then envDays x else d),
                   Folders = (if rest = [] then envFolders x else rest)\<rparr>)
       \<and> (\<forall>a y. args = [a] \<and> Atoi a = None \<and> readYAMLConfig x a = Inr y \<longrightarrow>
            loadConfig x args =
              Inr \<lparr>Days = (if Days y = 0 then envDays x else Days y),
                   Folders = (if Folders y = [] then envFolders x else Folders y)\<rparr>)"
proof -
  have env: "fst (parseEnvConfig x) = \<lparr>Days = envDays x, Folders = envFolders x\<rparr>"
    using assms by (simp add: parseEnvConfig_numeric)
  have none: "args = [] \<longrightarrow> loadConfig x args = Inr \<lparr>Days = envDays x, Folders = envFolders x\<rparr>"
    by (simp add: loadConfig_def argsConfig_def env mergeConfigs_eq emptyConfig_def)
  have numeric: "loadConfig x (a # rest) =
        Inr \<lparr>Days = (if d = 0 then envDays x else d),
             Folders = (if rest = [] then envFolders x else rest)\<rparr>"
    if "Atoi a = Some d" for a rest d
    using that
    by (simp add: loadConfig_def argsConfig_def isNumber_def env mergeConfigs_eq)
  have yaml: "loadConfig x [a] =
        Inr \<lparr>Days = (if Days y = 0 then envDays x else Days y),
             Folders = (if Folders y = [] then envFolders x else Folders y)\<rparr>"
    if "Atoi a = None" "readYAMLConfig x a = Inr y" for a y
    using that
    by (simp add: loadConfig_def argsConfig_def isNumber_def env mergeConfigs_eq)
  from none numeric yaml show ?thesis by blast
qed

text \<open>
  C3 as stated fails twice. The numeric first argument \<open>0\<close> does not override
  \<open>DAYS=7\<close>: the run uses seven days. And a folder argument after the name of a YAML
  file does not override \<open>FOLDERS\<close>: with \<open>config.yml /data\<close> and
  \<open>FOLDERS=/backup\<close> the folder cleaned is \<open>/backup\<close>.
\<close>

theorem config_precedence_counterexample:
  "isNumber ''0''
   \<and> loadConfig (samplePlatform ''7'' []) [''0'', ''/data''] = Inr \<lparr>Days = 7, Folders = [''/data'']\<rparr>
   \<and> loadConfig (samplePlatform [] ''/backup'') [''config.yml'', ''/data'']
       = Inr \<lparr>Days = 3, Folders = [''/backup'']\<rparr>"
  by (simp add: config_defs string_defs)

text \<open>
  The three cases at work: no arguments and an empty environment; arguments
  \<open>7 /data\<close> against \<open>DAYS=30\<close> and \<open>FOLDERS=/ghosts\<close>; \<open>config.yml\<close> (three
  days, no folders) against \<open>DAYS=30\<close> and \<open>FOLDERS=/ghosts, /backup\<close>.
\<close>

theorem config_precedence_witness:
  "loadConfig (samplePlatform [] []) [] = Inr \<lparr>Days = 0, Folders = []\<rparr>
   \<and> loadConfig (samplePlatform ''30'' ''/ghosts'') [''7'', ''/data''] = Inr \<lparr>Days = 7, Folders = [''/data'']\<rparr>
   \<and> loadConfig (samplePlatform ''30'' ''/ghosts, /backup'') [''config.yml'']
        = Inr \<lparr>Days = 3, Folders = [''/ghosts'', ''/backup'']\<rparr>"
proof -
  have g: "Getenv (samplePlatform d f) ''DAYS'' = d" "Getenv (samplePlatform d f) ''FOLDERS'' = f"
    for d f by (simp_all add: samplePlatform_def)
  have a30: "Atoi ''30'' = Some 30" and a7: "Atoi ''7'' = Some 7"
    and ay: "Atoi ''config.yml'' = None"
    by (simp_all add: string_defs)
  have h0: "Getenv (samplePlatform [] []) ''DAYS'' = []
      \<or> Atoi (Getenv (samplePlatform [] []) ''DAYS'') \<noteq> None"
    by (simp add: g)
  have h1: "Getenv (samplePlatform ''30'' f) ''DAYS'' = []
      \<or> Atoi (Getenv (samplePlatform ''30'' f) ''DAYS'') \<noteq> None" for f
    by (simp add: g a30)
  have e0: "envDays (samplePlatform [] []) = 0" "envFolders (samplePlatform [] []) = []"
    by (simp_all add: envDays_def envFolders_def g Atoi_Nil)
  have e2: "envFolders (samplePlatform ''30'' ''/ghosts, /backup'') = [''/ghosts'', ''/backup'']"
    by (simp add: envFolders_def g string_defs)
  have y: "readYAMLConfig (samplePlatform ''30'' ''/ghosts, /backup'') ''config.yml''
      = Inr \<lparr>Days = 3, Folders = []\<rparr>"
    by (simp add: readYAMLConfig_def samplePlatform_def)
  from config_precedence[OF h0, of "[]"] e0
  have "loadConfig (samplePlatform [] []) [] = Inr \<lparr>Days = 0, Folders = []\<rparr>" by simp
  moreover
  from config_precedence[OF h1, of "[''7'', ''/data'']" "''/ghosts''"] a7
  have "loadConfig (samplePlatform ''30'' ''/ghosts'') [''7'', ''/data'']
      = Inr \<lparr>Days = 7, Folders = [''/data'']\<rparr>" by simp
  moreover
  from config_precedence[OF h1, of "[''config.yml'']" "''/ghosts, /backup''"] ay y e2
  have "loadConfig (samplePlatform ''30'' ''/ghosts, /backup'') [''config.yml'']
        = Inr \<lparr>Days = 3, Folders = [''/ghosts'', ''/backup'']\<rparr>" by simp
  ultimately show ?thesis by simp
qed

section \<open>A value of DAYS that is not a number\<close>

text \<open>
  C4 says that a value of \<open>DAYS\<close> that is not a number ends the process with a
  nonzero status whatever the other sources give. \<open>parseEnvConfig\<close> does report the
  error, but \<open>main\<close> drops it: with \<open>DAYS=abc\<close> and the arguments \<open>7 /backup\<close>
  the run cleans \<open>/backup\<close>, writes its log line and ends with status 0. The value of
  \<open>FOLDERS\<close> is dropped together with the error.
\<close>

theorem bad_DAYS_is_ignored:
  "Atoi ''abc'' = None
   \<and> parseEnvConfig (samplePlatform ''abc'' ''/ghosts'') = (emptyConfig, Some EnvDaysError)
   \<and> main (samplePlatform ''abc'' ''/ghosts'') False [''7'', ''/backup''] 1000 sampleFs =
       Completed
         (sampleFs\<lparr>content := (content sampleFs)(12 :=
            [\<lparr>fname = ''fresh.log'', regular = True,
               stat = Some (100 * nsPerDay, Some (99 * nsPerDay)), removable = True\<rparr>,
             \<lparr>fname = ''sub'', regular = False, stat = Some (1, Some 1), removable = True\<rparr>])\<rparr>)
         2 1
         [LogCutoff ''/backup'' (100 * nsPerDay) (93 * nsPerDay),
          LogRemoved ''/backup/stale.log'', LogWritten]
         (Some (1000, 2, 1))
   \<and> exitStatus (main (samplePlatform ''abc'' ''/ghosts'') False [''7'', ''/backup''] 1000 sampleFs) = 0"
proof -
  have a: "Atoi ''abc'' = None" by (simp add: string_defs)
  have p: "parseEnvConfig (samplePlatform ''abc'' ''/ghosts'') = (emptyConfig, Some EnvDaysError)"
    by (simp add: parseEnvConfig_def samplePlatform_def a)
  show ?thesis by (simp add: a p backup_main_run exitStatus_def)
qed

section \<open>Fatal configuration errors\<close>

text \<open>
  C5. When the usage text is not asked for: if the configuration obtained by merging
  all sources has days that are not positive (missing is 0) or has no folders, \<open>main\<close>
  ends with the fatal error for missing parameters, exit status 1; and if the first
  argument is not a number and the file it names cannot be read, or its contents are
  not valid YAML for a configuration, \<open>main\<close> ends with the fatal error for the YAML
  file, exit status 1.
\<close>

theorem invalid_configuration_is_fatal:
  assumes "\<not> help"
  shows "(loadConfig x args = Inr cfg \<and> (Days cfg \<le> 0 \<or> Folders cfg = []) \<longrightarrow>
            main x help args now fs = Fatal MissingParameters
            \<and> exitStatus (main x help args now fs) = 1)
       \<and> (args = a # rest \<and> \<not> isNumber a \<and> os_ReadFile x a = None \<longrightarrow>
            main x help args now fs = Fatal (YAMLReadFailed ReadFileError)
            \<and> exitStatus (main x help args now fs) = 1)
       \<and> (args = a # rest \<and> \<not> isNumber a \<and> os_ReadFile x a = Some data
            \<and> yaml_Unmarshal x data = None \<longrightarrow>
            main x help args now fs = Fatal (YAMLReadFailed UnmarshalError)
            \<and> exitStatus (main x help args now fs) = 1)"
  using assms
  by (auto simp: main_def loadConfig_def argsConfig_def readYAMLConfig_def exitStatus_def)

text \<open>
  No days and \<open>FOLDERS=/data\<close>; a file that does not exist; a file that is not valid
  YAML.
\<close>

theorem invalid_configuration_is_fatal_witness:
  "main (samplePlatform [] ''/data'') False [] 0 sampleFs = Fatal MissingParameters
   \<and> main (samplePlatform ''7'' ''/data'') False [''missing.yml''] 0 sampleFs
       = Fatal (YAMLReadFailed ReadFileError)
   \<and> main (samplePlatform ''7'' ''/data'') False [''broken.yml''] 0 sampleFs
       = Fatal (YAMLReadFailed UnmarshalError)"
proof -
  have 1: "loadConfig (samplePlatform [] ''/data'') [] = Inr \<lparr>Days = 0, Folders = [''/data'']\<rparr>"
    by (simp add: config_defs string_defs)
  have 2: "\<not> isNumber ''missing.yml''" "\<not> isNumber ''broken.yml''"
    by (simp_all add: string_defs)
  have 3: "os_ReadFile (samplePlatform ''7'' ''/data'') ''missing.yml'' = None"
    "os_ReadFile (samplePlatform ''7'' ''/data'') ''broken.yml'' = Some ''days: [''"
    "yaml_Unmarshal (samplePlatform ''7'' ''/data'') ''days: ['' = None"
    by (simp_all add: samplePlatform_def)
  have h: "\<not> False" by simp
  from invalid_configuration_is_fatal[OF h, of "samplePlatform [] ''/data''" "[]"
      "\<lparr>Days = 0, Folders = [''/data'']\<rparr>" 0 sampleFs] 1
  have "main (samplePlatform [] ''/data'') False [] 0 sampleFs = Fatal MissingParameters"
    by simp
  moreover
  from invalid_configuration_is_fatal[OF h, of "samplePlatform ''7'' ''/data''" "[''missing.yml'']"
      _ 0 sampleFs "''missing.yml''" "[]"] 2 3
  have "main (samplePlatform ''7'' ''/data'') False [''missing.yml''] 0 sampleFs
       = Fatal (YAMLReadFailed ReadFileError)"
    by simp
  moreover
  from invalid_configuration_is_fatal[OF h, of "samplePlatform ''7'' ''/data''" "[''broken.yml'']"
      _ 0 sampleFs "''broken.yml''" "[]" "''days: [''"] 2 3
  have "main (samplePlatform ''7'' ''/data'') False [''broken.yml''] 0 sampleFs
       = Fatal (YAMLReadFailed UnmarshalError)"
    by simp
  ultimately show ?thesis by simp
qed

section \<open>A folder without regular files\<close>

text \<open>
  C6. For a folder that can be listed and contains no regular files, \<open>processFolder\<close>
  returns 0 files found, 0 files deleted and no error, leaves the file system as it
  was and logs only that the folder has no files to analyse: no deletion is attempted.
\<close>

theorem no_regular_files_untouched:
  assumes "dirAt fs folder = Dir True d" and "\<forall>f\<in>set (content fs d). \<not> regular f"
  shows "processFolder loc fs folder days = Inr ((0, 0, None), fs, [LogNoFiles folder])"
  using assms
  by (simp add: processFolder_def os_ReadDir_def scanEntries_no_regular IsZero_def)

text \<open>
A folder that holds only a subdirectory.
\<close>

theorem no_regular_files_untouched_witness:
  "processFolder utcLoc
     \<lparr>dirAt = (\<lambda>p. if p = ''/empty'' then Dir True 7 else NoEntry),
      content = (\<lambda>d. if d = 7 then
                  [\<lparr>fname = ''sub'', regular = False, stat = Some (5, Some 5),
                     removable = True\<rparr>]
                else [])\<rparr> ''/empty'' 7
   = Inr ((0, 0, None),
      \<lparr>dirAt = (\<lambda>p. if p = ''/empty'' then Dir True 7 else NoEntry),
       content = (\<lambda>d. if d = 7 then
                  [\<lparr>fname = ''sub'', regular = False, stat = Some (5, Some 5),
                     removable = True\<rparr>]
                else [])\<rparr>,
      [LogNoFiles ''/empty''])"
  by (rule no_regular_files_untouched[where d = 7]) simp_all

section \<open>Recoverable errors\<close>



section \<open>The newest file survives\<close>




section \<open>The counts returned\<close>

text \<open>
  C9. When \<open>processFolder\<close> returns without error, the number of deleted files is
  at least 0 and at most the number of files found, and it is the number of removals
  that succeeded: the number of lines of the log that report a successful
  \<open>os.Remove\<close>. In a folder that can be listed, with distinct names and each joined
  path naming its entry, it is also the number of entries of the folder that are gone
  afterwards, and each entry that is gone is a regular file on which \<open>os.Remove\<close>
  succeeds and whose removal is logged.
\<close>

theorem deleted_counts_removed_files:
  assumes "processFolder loc fs folder days = Inr ((seen, deleted, None), fs', lg)"
  shows "0 \<le> deleted \<and> deleted \<le> seen \<and> deleted = int (length (filter isRemoved lg)) \<and>
         (\<forall>d. dirAt fs folder = Dir True d \<and> distinct (map fname (content fs d))
               \<and> (\<forall>g\<in>set (content fs d). regular g \<longrightarrow> joinsInto fs folder d (fname g)) \<longrightarrow>
            deleted = int (length (filter (\<lambda>f. entryOf fs' d (fname f) = None) (content fs d))) \<and>
            (\<forall>f\<in>set (content fs d). entryOf fs' d (fname f) = None \<longrightarrow>
               regular f \<and> removable f \<and>
               LogRemoved (filepath_Join folder (fname f)) \<in> set lg))"
proof -
  have counted:
    "deleted = int (length (filter (\<lambda>f. entryOf fs' d (fname f) = None) (content fs d))) \<and>
     (\<forall>f\<in>set (content fs d). entryOf fs' d (fname f) = None \<longrightarrow>
        regular f \<and> removable f \<and> LogRemoved (filepath_Join folder (fname f)) \<in> set lg)"
    if wf: "dirAt fs folder = Dir True d" "distinct (map fname (content fs d))"
      "\<forall>g\<in>set (content fs d). regular g \<longrightarrow> joinsInto fs folder d (fname g)" for d
  proof (cases "fold max (stamps (content fs d)) zeroTime = zeroTime")
    case True
    from processFolder_facts(1)[OF wf assms True]
    have "fs' = fs" "deleted = 0" by blast+
    moreover have "\<forall>f\<in>set (content fs d). entryOf fs d (fname f) = Some f"
      using wf by (simp add: entryOf_listed)
    ultimately show ?thesis by (simp add: filter_empty_conv[THEN iffD2])
  next
    case False
    let ?es = "content fs d"
    let ?c = "AddDate_days loc (fold max (stamps ?es) zeroTime) (- days)"
    from processFolder_facts(2)[OF wf assms False]
    have fs': "fs' = fs\<lparr>content := (content fs)
          (d := filter (\<lambda>g. \<not> (regular g \<and> doomed ?c g)) ?es)\<rparr>"
      and del: "deleted = int (length (filter (doomed ?c) (filter regular ?es)))"
      and lg: "lg = concat (map (scanLine folder) (filter regular ?es)) @
        [LogCutoff folder (fold max (stamps ?es) zeroTime) ?c] @
        concat (map (deleteLine folder ?c) (filter regular ?es))"
      by blast+
    have gone: "entryOf fs' d (fname f) = None \<longleftrightarrow> regular f \<and> doomed ?c f"
      if "f \<in> set ?es" for f
      unfolding fs' using entryOf_filter[OF wf(2) that] by simp
    have "filter (\<lambda>f. entryOf fs' d (fname f) = None) ?es
        = filter (\<lambda>f. regular f \<and> doomed ?c f) ?es"
      using gone by (intro filter_cong) auto
    then have 1: "deleted = int (length (filter (\<lambda>f. entryOf fs' d (fname f) = None) ?es))"
      using del by (simp add: conj_commute)
    have 2: "regular f \<and> removable f \<and> LogRemoved (filepath_Join folder (fname f)) \<in> set lg"
      if f: "f \<in> set ?es" "entryOf fs' d (fname f) = None" for f
    proof -
      from gone[OF f(1)] f(2) have r: "regular f" and d: "doomed ?c f" by simp_all
      from d have "removable f"
        and "deleteLine folder ?c f = [LogRemoved (filepath_Join folder (fname f))]"
        by (auto simp: doomed_def deleteLine_def split: option.splits)
      then show ?thesis using r f(1) unfolding lg by force
    qed
    from 1 2 show ?thesis by blast
  qed
  from processFolder_bounds[OF assms] counted show ?thesis by blast
qed

text \<open>
  For \<open>/srv/link/..\<close> two files are found, one is deleted and one removal is
  logged; in \<open>/backup\<close> one file is deleted and one entry is gone.
\<close>

theorem deleted_counts_removed_files_witness:
  "(0::int) \<le> 1 \<and> (1::int) \<le> 2 \<and>
   (1::int) = int (length (filter isRemoved
       [LogCutoff ''/srv/link/..'' (100 * nsPerDay) (93 * nsPerDay),
        LogRemoved ''/srv/stale.log''])) \<and>
   (1::int) = int (length (filter (\<lambda>f. entryOf (sampleFs\<lparr>content := (content sampleFs)(12 :=
        [\<lparr>fname = ''fresh.log'', regular = True,
           stat = Some (100 * nsPerDay, Some (99 * nsPerDay)), removable = True\<rparr>,
         \<lparr>fname = ''sub'', regular = False, stat = Some (1, Some 1), removable = True\<rparr>])\<rparr>)
           12 (fname f) = None) (content sampleFs 12)))"
proof -
  from deleted_counts_removed_files[OF link_run]
  have a: "(0::int) \<le> 1 \<and> (1::int) \<le> 2 \<and>
   (1::int) = int (length (filter isRemoved
       [LogCutoff ''/srv/link/..'' (100 * nsPerDay) (93 * nsPerDay),
        LogRemoved ''/srv/stale.log'']))" by blast
  from deleted_counts_removed_files[OF backup_run] sampleFs_dirs(2) backup_ready
  have "(1::int) = int (length (filter (\<lambda>f. entryOf (sampleFs\<lparr>content := (content sampleFs)(12 :=
        [\<lparr>fname = ''fresh.log'', regular = True,
           stat = Some (100 * nsPerDay, Some (99 * nsPerDay)), removable = True\<rparr>,
         \<lparr>fname = ''sub'', regular = False, stat = Some (1, Some 1), removable = True\<rparr>])\<rparr>)
           12 (fname f) = None) (content sampleFs 12)))" by blast
  with a show ?thesis by blast
qed

section \<open>A folder whose time stamps cannot be read\<close>

text \<open>
  C10. If a folder that can be listed contains at least one regular file but
  \<open>times.Stat\<close> fails for every regular file, \<open>processFolder\<close> returns the number
  of regular files (which is positive), 0 deleted files and no error; the file system
  is left as it was, and the log holds one line for each failed \<open>times.Stat\<close>
  followed by the line that the folder has no files to analyse. No removal is
  attempted.
\<close>

theorem unreadable_stamps_skip:
  assumes "dirAt fs folder = Dir True d"
    and "\<exists>f\<in>set (content fs d). regular f"
    and "\<forall>f\<in>set (content fs d). regular f \<longrightarrow>
           times_Stat fs (filepath_Join folder (fname f)) = None"
  shows "processFolder loc fs folder days =
           Inr ((int (length (filter regular (content fs d))), 0, None), fs,
            map (\<lambda>f. LogStatError (filepath_Join folder (fname f)))
              (filter regular (content fs d)) @ [LogNoFiles folder])
         \<and> 0 < int (length (filter regular (content fs d)))"
proof -
  have sc: "scanEntries fs folder (content fs d) (0, [], zeroTime, []) =
     Inr (int (length (filter regular (content fs d))), filter regular (content fs d), zeroTime,
          map (\<lambda>f. LogStatError (filepath_Join folder (fname f)))
            (filter regular (content fs d)))"
    using scanEntries_all_fail[OF assms(3), of 0 "[]" zeroTime "[]"] by simp
  have "filter regular (content fs d) \<noteq> []"
    using assms(2) by (auto simp: filter_empty_conv)
  then show ?thesis
    by (simp add: processFolder_def os_ReadDir_def assms(1) sc IsZero_def
        del: scanEntries.simps)
qed

text \<open>
The folder \<open>/ghosts\<close>.
\<close>

theorem unreadable_stamps_skip_witness:
  "processFolder utcLoc sampleFs ''/ghosts'' 7 =
     Inr ((1, 0, None), sampleFs,
      [LogStatError ''/ghosts/ghost.log'', LogNoFiles ''/ghosts''])"
proof -
  have 2: "\<exists>f\<in>set (content sampleFs 13). regular f" by (simp add: sampleFs_content)
  have "filepath_Join ''/ghosts'' ''ghost.log'' = ''/ghosts/ghost.log''"
    by (simp add: filepath_Join_def Clean_def)
  moreover have "times_Stat sampleFs ''/ghosts/ghost.log'' = None"
    by (simp add: times_Stat_def fileAt_def splitPath_def sampleFs_dirs sampleFs_content)
  ultimately have 3: "\<forall>f\<in>set (content sampleFs 13). regular f \<longrightarrow>
           times_Stat sampleFs (filepath_Join ''/ghosts'' (fname f)) = None"
    by (simp add: sampleFs_content)
  from unreadable_stamps_skip[OF sampleFs_dirs(3) 2 3, of utcLoc 7]
    \<open>filepath_Join ''/ghosts'' ''ghost.log'' = ''/ghosts/ghost.log''\<close>
  show ?thesis by (simp add: sampleFs_content)
qed

end
